theory Spec2Isabelle
  imports Complex_Main
begin

section \<open>JavaScript numbers\<close>

text \<open>
  Every numeric field of the floorplanner is a JavaScript \<open>number\<close>. The model keeps the
  three non-finite values of the source apart from the finite ones, so that a division by
  zero or the square root of a negative number is visible in the result exactly as it is
  at run time. Finite values are exact reals: rounding, overflow to infinity and the sign
  of zero are not modelled. The concrete inputs used below are small numbers on which the
  double arithmetic of the source gives the results shown. A theorem about all valid
  inputs carries hypotheses under which the arithmetic of the source yields no NaN either,
  and states only what monotone, correctly rounded operations preserve.
\<close>

datatype jsnum = Num real | PosInf | NegInf | NaN

fun isNum :: "jsnum \<Rightarrow> bool" where
  "isNum (Num r) = True"
| "isNum v = False"

fun val :: "jsnum \<Rightarrow> real" where
  "val (Num r) = r"
| "val v = 0"

instantiation jsnum :: "{plus, minus, uminus, times, inverse, ord}"
begin

fun uminus_jsnum :: "jsnum \<Rightarrow> jsnum" where
  "uminus_jsnum (Num a) = Num (- a)"
| "uminus_jsnum PosInf = NegInf"
| "uminus_jsnum NegInf = PosInf"
| "uminus_jsnum NaN = NaN"

fun plus_jsnum :: "jsnum \<Rightarrow> jsnum \<Rightarrow> jsnum" where
  "plus_jsnum NaN b = NaN"
| "plus_jsnum a NaN = NaN"
| "plus_jsnum (Num a) (Num b) = Num (a + b)"
| "plus_jsnum PosInf NegInf = NaN"
| "plus_jsnum NegInf PosInf = NaN"
| "plus_jsnum PosInf b = PosInf"
| "plus_jsnum a PosInf = PosInf"
| "plus_jsnum NegInf b = NegInf"
| "plus_jsnum a NegInf = NegInf"

definition minus_jsnum :: "jsnum \<Rightarrow> jsnum \<Rightarrow> jsnum" where
  "minus_jsnum a b = a + (- b)"

text \<open>The sign of an infinite product or quotient, given the sign of the finite operand.\<close>

definition signedInf :: "bool \<Rightarrow> jsnum" where
  "signedInf positive = (if positive then PosInf else NegInf)"

fun times_jsnum :: "jsnum \<Rightarrow> jsnum \<Rightarrow> jsnum" where
  "times_jsnum NaN b = NaN"
| "times_jsnum a NaN = NaN"
| "times_jsnum (Num a) (Num b) = Num (a * b)"
| "times_jsnum (Num a) PosInf = (if a = 0 then NaN else signedInf (0 < a))"
| "times_jsnum (Num a) NegInf = (if a = 0 then NaN else signedInf (a < 0))"
| "times_jsnum PosInf (Num b) = (if b = 0 then NaN else signedInf (0 < b))"
| "times_jsnum NegInf (Num b) = (if b = 0 then NaN else signedInf (b < 0))"
| "times_jsnum PosInf PosInf = PosInf"
| "times_jsnum PosInf NegInf = NegInf"
| "times_jsnum NegInf PosInf = NegInf"
| "times_jsnum NegInf NegInf = PosInf"

fun divide_jsnum :: "jsnum \<Rightarrow> jsnum \<Rightarrow> jsnum" where
  "divide_jsnum NaN b = NaN"
| "divide_jsnum a NaN = NaN"
| "divide_jsnum (Num a) (Num b) =
     (if b = 0 then (if a = 0 then NaN else signedInf (0 < a)) else Num (a / b))"
| "divide_jsnum (Num a) b = Num 0"
| "divide_jsnum PosInf (Num b) = signedInf (0 \<le> b)"
| "divide_jsnum NegInf (Num b) = signedInf (b < 0)"
| "divide_jsnum a b = NaN"

definition inverse_jsnum :: "jsnum \<Rightarrow> jsnum" where
  "inverse_jsnum a = (Num 1) div a"

fun less_jsnum :: "jsnum \<Rightarrow> jsnum \<Rightarrow> bool" where
  "less_jsnum NaN b = False"
| "less_jsnum a NaN = False"
| "less_jsnum (Num a) (Num b) = (a < b)"
| "less_jsnum a NegInf = False"
| "less_jsnum PosInf b = False"
| "less_jsnum NegInf b = True"
| "less_jsnum a PosInf = True"

fun less_eq_jsnum :: "jsnum \<Rightarrow> jsnum \<Rightarrow> bool" where
  "less_eq_jsnum NaN b = False"
| "less_eq_jsnum a NaN = False"
| "less_eq_jsnum (Num a) (Num b) = (a \<le> b)"
| "less_eq_jsnum NegInf b = True"
| "less_eq_jsnum a PosInf = True"
| "less_eq_jsnum a NegInf = False"
| "less_eq_jsnum PosInf b = False"

instance ..

end

text \<open>\<open>Math.sqrt\<close>, \<open>Math.max\<close> and \<open>Math.min\<close>: each returns NaN on a NaN argument.\<close>

fun Math_sqrt :: "jsnum \<Rightarrow> jsnum" where
  "Math_sqrt (Num a) = (if a < 0 then NaN else Num (sqrt a))"
| "Math_sqrt PosInf = PosInf"
| "Math_sqrt v = NaN"

definition Math_max :: "jsnum \<Rightarrow> jsnum \<Rightarrow> jsnum" where
  "Math_max a b = (if a = NaN \<or> b = NaN then NaN else if a < b then b else a)"

definition Math_min :: "jsnum \<Rightarrow> jsnum \<Rightarrow> jsnum" where
  "Math_min a b = (if a = NaN \<or> b = NaN then NaN else if b < a then b else a)"

text \<open>
  Truthiness of a number and the defaulting idiom \<open>a || b\<close>: zero and NaN are falsy,
  every other number (negative ones and the infinities included) is truthy.
\<close>

fun truthy :: "jsnum \<Rightarrow> bool" where
  "truthy (Num r) = (r \<noteq> 0)"
| "truthy NaN = False"
| "truthy v = True"

definition orElse :: "jsnum \<Rightarrow> jsnum \<Rightarrow> jsnum" where
  "orElse a b = (if truthy a then a else b)"

text \<open>
  \<open>Number(v.toFixed(2))\<close>: the nearest multiple of 1/100, a tie going away from zero;
  from \<open>10^21\<close> on \<open>toFixed\<close> prints the number itself, and so do NaN and the infinities.
  The model rounds the exact quotient where the source rounds the double next to it, so
  the two can differ on a tie; no property below rests on one.
\<close>

fun toFixed2 :: "jsnum \<Rightarrow> jsnum" where
  "toFixed2 (Num r) =
     (if 10 ^ 21 \<le> \<bar>r\<bar> then Num r
      else Num (sgn r * of_int \<lfloor>\<bar>r\<bar> * 100 + 1 / 2\<rfloor> / 100))"
| "toFixed2 v = v"


section \<open>Geometry model\<close>

text \<open>
  The interfaces of \<open>types.ts\<close>. A \<open>ModuleNode\<close> is a tree, so its scalar fields are
  a record and the node pairs that record with the list of children. The fields \<open>id\<close>,
  \<open>name\<close>, \<open>x\<close> and \<open>y\<close> are written \<open>nodeId\<close>, \<open>nodeName\<close>, \<open>nodeX\<close> and \<open>nodeY\<close>.
\<close>

record NodeFields =
  nodeId :: string
  nodeName :: string
  registers :: jsnum
  memoryBits :: jsnum
  logicGates :: jsnum
  nodeX :: jsnum
  nodeY :: jsnum
  internalX :: jsnum
  internalY :: jsnum
  aspectRatio :: jsnum
  internalAspectRatio :: jsnum
  isRatioLinked :: bool
  color :: "string option"

datatype ModuleNode = ModuleNode (attrs: NodeFields) (children: "ModuleNode list")

record TechNodeConfig =
  techName :: string
  dffArea :: jsnum
  gateArea :: jsnum
  sramAreaPerBit :: jsnum
  utilization :: jsnum

record AreaBreakdown =
  statId :: string
  statName :: string
  localArea :: jsnum
  childrenArea :: jsnum
  totalArea :: jsnum
  regArea :: jsnum
  memArea :: jsnum
  logicArea :: jsnum
  utilizationOverhead :: jsnum
  calculatedWidth :: jsnum
  calculatedHeight :: jsnum
  idealWidth :: jsnum
  idealHeight :: jsnum
  minFeasibleRatio :: jsnum
  maxFeasibleRatio :: jsnum

record PhysicalSize =
  sizeW :: jsnum
  sizeH :: jsnum
  stats :: AreaBreakdown

record OverlapMarker =
  markerX :: jsnum
  markerY :: jsnum
  markerW :: jsnum
  markerH :: jsnum
  ids :: "string \<times> string"

definition GLOBAL_MARGIN :: jsnum where
  "GLOBAL_MARGIN = Num 24"

definition GLOBAL_HEADER :: jsnum where
  "GLOBAL_HEADER = Num 36"

definition INTER_MODULE_GAP :: jsnum where
  "INTER_MODULE_GAP = Num 16"

section \<open>Area Calculator\<close>

text \<open>
  The expression \<open>node.isRatioLinked ? node.aspectRatio : (node.internalAspectRatio || 1.0)\<close>,
  which the source repeats in the calculator, the flattener, the detector and the compactor.
\<close>

definition effectiveInternalAR :: "NodeFields \<Rightarrow> jsnum" where
  "effectiveInternalAR f =
     (if isRatioLinked f then aspectRatio f else orElse (internalAspectRatio f) (Num 1))"

text \<open>
  \<open>calculatePhysicalSize\<close> first sizes every child (\<open>childrenInfo\<close>) and then computes the
  node's own footprint from its fields and that list. \<open>sizeFromChildren\<close> is the second
  part, the body of the source function after the recursive calls.
\<close>

definition sizeFromChildren ::
  "NodeFields \<Rightarrow> TechNodeConfig \<Rightarrow> (ModuleNode \<times> PhysicalSize) list \<Rightarrow> PhysicalSize" where
  "sizeFromChildren f config childrenInfo =
     (let regA = orElse (registers f) (Num 0) * dffArea config;
          memA = orElse (memoryBits f) (Num 0) * sramAreaPerBit config;
          logicA = orElse (logicGates f) (Num 0) * gateArea config;
          rawLocalArea = regA + memA + logicA;
          localA = rawLocalArea / utilization config;
          childrenAreaSum =
            fold (\<lambda>c acc. acc + sizeW (snd c) * sizeH (snd c)) childrenInfo (Num 0);
          totalContentArea = localA + childrenAreaSum;
          effAR = effectiveInternalAR f;
          ratio = orElse (aspectRatio f) (Num 1);
          idealH = Math_sqrt (totalContentArea / ratio);
          idealW = idealH * ratio;
          hL = Math_sqrt (localA / effAR);
          wL = hL * effAR;
          maxContentX =
            fold (\<lambda>c m. Math_max m (orElse (nodeX (attrs (fst c))) (Num 0) + sizeW (snd c)))
              childrenInfo (orElse (internalX f) (Num 0) + wL);
          maxContentY =
            fold (\<lambda>c m. Math_max m (orElse (nodeY (attrs (fst c))) (Num 0) + sizeH (snd c)))
              childrenInfo (orElse (internalY f) (Num 0) + hL);
          finalW = Math_max idealW (maxContentX + GLOBAL_MARGIN * Num 2);
          finalH = Math_max idealH (maxContentY + GLOBAL_MARGIN * Num 2 + GLOBAL_HEADER);
          W_min = maxContentX + GLOBAL_MARGIN * Num 2;
          H_min = maxContentY + GLOBAL_MARGIN * Num 2 + GLOBAL_HEADER;
          minFeasible = (W_min * W_min) / totalContentArea;
          maxFeasible = totalContentArea / (H_min * H_min)
      in \<lparr> sizeW = finalW, sizeH = finalH,
           stats = \<lparr> statId = nodeId f, statName = nodeName f,
             localArea = localA, childrenArea = childrenAreaSum,
             totalArea = finalW * finalH,
             regArea = regA, memArea = memA, logicArea = logicA,
             utilizationOverhead = (finalW * finalH * utilization config) - rawLocalArea,
             calculatedWidth = finalW, calculatedHeight = finalH,
             idealWidth = idealW, idealHeight = idealH,
             minFeasibleRatio = Math_min minFeasible maxFeasible,
             maxFeasibleRatio = Math_max minFeasible maxFeasible \<rparr> \<rparr>)"

fun calculatePhysicalSize :: "ModuleNode \<Rightarrow> TechNodeConfig \<Rightarrow> PhysicalSize" where
  "calculatePhysicalSize (ModuleNode f cs) config =
     sizeFromChildren f config (map (\<lambda>c. (c, calculatePhysicalSize c config)) cs)"


section \<open>Overlap Detector\<close>

record Block =
  blkId :: string
  blkName :: string
  blkX :: jsnum
  blkY :: jsnum
  blkW :: jsnum
  blkH :: jsnum

text \<open>The list \<open>blocks\<close>: the local-logic block first, then one block per direct child.\<close>

definition moduleBlocks :: "ModuleNode \<Rightarrow> TechNodeConfig \<Rightarrow> Block list" where
  "moduleBlocks node config =
     (let st = stats (calculatePhysicalSize node config);
          effAR = effectiveInternalAR (attrs node);
          localH = Math_sqrt (localArea st / effAR);
          localW = localH * effAR
      in \<lparr> blkId = ''internal'', blkName = ''[Local Logic]'',
           blkX = orElse (internalX (attrs node)) (Num 0),
           blkY = orElse (internalY (attrs node)) (Num 0),
           blkW = localW, blkH = localH \<rparr>
         # map (\<lambda>c. let sz = calculatePhysicalSize c config
                    in \<lparr> blkId = nodeId (attrs c), blkName = nodeName (attrs c),
                         blkX = orElse (nodeX (attrs c)) (Num 0),
                         blkY = orElse (nodeY (attrs c)) (Num 0),
                         blkW = sizeW sz, blkH = sizeH sz \<rparr>)
             (children node))"

definition xOverlap :: "Block \<Rightarrow> Block \<Rightarrow> jsnum" where
  "xOverlap a b =
     Math_max (Num 0) (Math_min (blkX a + blkW a) (blkX b + blkW b) - Math_max (blkX a) (blkX b))"

definition yOverlap :: "Block \<Rightarrow> Block \<Rightarrow> jsnum" where
  "yOverlap a b =
     Math_max (Num 0) (Math_min (blkY a + blkH a) (blkY b + blkH b) - Math_max (blkY a) (blkY b))"

definition markerOf :: "Block \<Rightarrow> Block \<Rightarrow> OverlapMarker" where
  "markerOf a b =
     \<lparr> markerX = Math_max (blkX a) (blkX b), markerY = Math_max (blkY a) (blkY b),
       markerW = xOverlap a b, markerH = yOverlap a b, ids = (blkId a, blkId b) \<rparr>"

text \<open>The inner loop over \<open>j\<close>: block \<open>a\<close> against every later block, pushing onto \<open>markers\<close>.\<close>

fun checkAgainst :: "Block \<Rightarrow> Block list \<Rightarrow> OverlapMarker list \<Rightarrow> OverlapMarker list" where
  "checkAgainst a [] markers = markers"
| "checkAgainst a (b # bs) markers =
     checkAgainst a bs
       (if xOverlap a b > Num 0 \<and> yOverlap a b > Num 0 then markers @ [markerOf a b]
        else markers)"

text \<open>The outer loop over \<open>i\<close>.\<close>

fun checkBlocks :: "Block list \<Rightarrow> OverlapMarker list \<Rightarrow> OverlapMarker list" where
  "checkBlocks [] markers = markers"
| "checkBlocks (a # bs) markers = checkBlocks bs (checkAgainst a bs markers)"

definition checkOverlapsInModule :: "ModuleNode \<Rightarrow> TechNodeConfig \<Rightarrow> OverlapMarker list" where
  "checkOverlapsInModule node config = checkBlocks (moduleBlocks node config) []"

section \<open>Tree-rewrite helpers\<close>

text \<open>
  \<open>Partial<ModuleNode>\<close>: every field may be present or absent. The spread
  \<open>{ ...root, ...updates }\<close> overwrites exactly the fields that are present.
\<close>

record NodeUpdates =
  updId :: "string option"
  updName :: "string option"
  updRegisters :: "jsnum option"
  updMemoryBits :: "jsnum option"
  updLogicGates :: "jsnum option"
  updX :: "jsnum option"
  updY :: "jsnum option"
  updInternalX :: "jsnum option"
  updInternalY :: "jsnum option"
  updAspectRatio :: "jsnum option"
  updInternalAspectRatio :: "jsnum option"
  updIsRatioLinked :: "bool option"
  updColor :: "string option option"
  updChildren :: "ModuleNode list option"

definition pick :: "'a option \<Rightarrow> 'a \<Rightarrow> 'a" where
  "pick u old = (case u of None \<Rightarrow> old | Some v \<Rightarrow> v)"

definition applyUpdates :: "ModuleNode \<Rightarrow> NodeUpdates \<Rightarrow> ModuleNode" where
  "applyUpdates node u =
     (let f = attrs node
      in ModuleNode
           \<lparr> nodeId = pick (updId u) (nodeId f), nodeName = pick (updName u) (nodeName f),
             registers = pick (updRegisters u) (registers f),
             memoryBits = pick (updMemoryBits u) (memoryBits f),
             logicGates = pick (updLogicGates u) (logicGates f),
             nodeX = pick (updX u) (nodeX f), nodeY = pick (updY u) (nodeY f),
             internalX = pick (updInternalX u) (internalX f),
             internalY = pick (updInternalY u) (internalY f),
             aspectRatio = pick (updAspectRatio u) (aspectRatio f),
             internalAspectRatio = pick (updInternalAspectRatio u) (internalAspectRatio f),
             isRatioLinked = pick (updIsRatioLinked u) (isRatioLinked f),
             color = pick (updColor u) (color f) \<rparr>
           (pick (updChildren u) (children node)))"

fun updateNodeInTree :: "ModuleNode \<Rightarrow> string \<Rightarrow> NodeUpdates \<Rightarrow> ModuleNode" where
  "updateNodeInTree (ModuleNode f cs) i updates =
     (if nodeId f = i then applyUpdates (ModuleNode f cs) updates
      else ModuleNode f (map (\<lambda>child. updateNodeInTree child i updates) cs))"

text \<open>\<open>null\<close> is \<open>None\<close>; the filter keeps the children that are not \<open>null\<close>.\<close>

fun deleteNodeInTree :: "ModuleNode \<Rightarrow> string \<Rightarrow> ModuleNode option" where
  "deleteNodeInTree (ModuleNode f cs) i =
     (if nodeId f = i then None
      else Some (ModuleNode f
             (map the (filter (\<lambda>c. c \<noteq> None) (map (\<lambda>child. deleteNodeInTree child i) cs)))))"

fun addNodeToParent :: "ModuleNode \<Rightarrow> string \<Rightarrow> ModuleNode \<Rightarrow> ModuleNode" where
  "addNodeToParent (ModuleNode f cs) pId newNode =
     (if nodeId f = pId then ModuleNode f (cs @ [newNode])
      else ModuleNode f (map (\<lambda>child. addNodeToParent child pId newNode) cs))"

text \<open>The ids present in a tree, in pre-order.\<close>

fun treeIds :: "ModuleNode \<Rightarrow> string list" where
  "treeIds (ModuleNode f cs) = nodeId f # concat (map treeIds cs)"


section \<open>Compactor\<close>

text \<open>
  An entity of the sweep is either the local-logic block (\<open>isLocal: true\<close>) or a child,
  which carries its node in \<open>original\<close>. Indexing \<open>undefined\<close> is the only way the
  source can fail, with a \<open>TypeError\<close>.
\<close>

datatype EntityOrigin = LocalLogic | Original ModuleNode

record Entity =
  origin :: EntityOrigin
  entId :: string
  entX :: jsnum
  entY :: jsnum
  entW :: jsnum
  entH :: jsnum

definition isLocal :: "Entity \<Rightarrow> bool" where
  "isLocal e = (origin e = LocalLogic)"

datatype js_error = TypeError

definition moduleEntities :: "ModuleNode \<Rightarrow> TechNodeConfig \<Rightarrow> Entity list" where
  "moduleEntities node config =
     (let st = stats (calculatePhysicalSize node config);
          effAR = effectiveInternalAR (attrs node);
          localH = Math_sqrt (localArea st / effAR);
          localW = localH * effAR
      in \<lparr> origin = LocalLogic, entId = ''internal'',
           entX = orElse (internalX (attrs node)) (Num 0),
           entY = orElse (internalY (attrs node)) (Num 0),
           entW = localW, entH = localH \<rparr>
         # map (\<lambda>c. let sz = calculatePhysicalSize c config
                    in \<lparr> origin = Original c, entId = nodeId (attrs c),
                         entX = orElse (nodeX (attrs c)) (Num 0),
                         entY = orElse (nodeY (attrs c)) (Num 0),
                         entW = sizeW sz, entH = sizeH sz \<rparr>)
             (children node))"

text \<open>
  \<open>Array.prototype.sort\<close> with a comparator is stable, and a comparator result that is
  NaN counts as zero. It is modelled by stable insertion: an element moves behind another
  one only where the comparator is strictly positive. For a comparator that is a
  consistent ordering, as both comparators below are on finite coordinates, every stable
  sort returns this list.
\<close>

fun insertBy :: "('a \<Rightarrow> 'a \<Rightarrow> jsnum) \<Rightarrow> 'a \<Rightarrow> 'a list \<Rightarrow> 'a list" where
  "insertBy cmp a [] = [a]"
| "insertBy cmp a (b # bs) = (if cmp a b > Num 0 then b # insertBy cmp a bs else a # b # bs)"

definition sortBy :: "('a \<Rightarrow> 'a \<Rightarrow> jsnum) \<Rightarrow> 'a list \<Rightarrow> 'a list" where
  "sortBy cmp xs = foldr (insertBy cmp) xs []"

definition compareYX :: "Entity \<Rightarrow> Entity \<Rightarrow> jsnum" where
  "compareYX a b = orElse (entY a - entY b) (entX a - entX b)"

definition compareXY :: "Entity \<Rightarrow> Entity \<Rightarrow> jsnum" where
  "compareXY a b = orElse (entX a - entX b) (entY a - entY b)"

definition spanOverlapX :: "Entity \<Rightarrow> Entity \<Rightarrow> jsnum" where
  "spanOverlapX entity other =
     Math_min (entX entity + entW entity) (entX other + entW other)
       - Math_max (entX entity) (entX other)"

definition spanOverlapY :: "Entity \<Rightarrow> Entity \<Rightarrow> jsnum" where
  "spanOverlapY entity other =
     Math_min (entY entity + entH entity) (entY other + entH other)
       - Math_max (entY entity) (entY other)"

text \<open>
  The inner \<open>for\<close> loop of a sweep runs over the entities in front of the current one
  (it breaks at \<open>other === entity\<close>), which have their new coordinate already.
\<close>

definition bestY :: "Entity list \<Rightarrow> Entity \<Rightarrow> jsnum" where
  "bestY before entity =
     fold (\<lambda>other best.
             if spanOverlapX entity other > Num 1
             then Math_max best (entY other + entH other + INTER_MODULE_GAP) else best)
       before (Num 0)"

definition bestX :: "Entity list \<Rightarrow> Entity \<Rightarrow> jsnum" where
  "bestX before entity =
     fold (\<lambda>other best.
             if spanOverlapY entity other > Num 1
             then Math_max best (entX other + entW other + INTER_MODULE_GAP) else best)
       before (Num 0)"

text \<open>
  The \<open>forEach\<close> of a sweep assigns in place; \<open>before\<close> holds the entities already
  assigned, in order, and the second argument those still to come.
\<close>

fun sweepY :: "Entity list \<Rightarrow> Entity list \<Rightarrow> Entity list" where
  "sweepY before [] = before"
| "sweepY before (entity # rest) =
     sweepY (before @ [entity\<lparr> entY := bestY before entity \<rparr>]) rest"

fun sweepX :: "Entity list \<Rightarrow> Entity list \<Rightarrow> Entity list" where
  "sweepX before [] = before"
| "sweepX before (entity # rest) =
     sweepX (before @ [entity\<lparr> entX := bestX before entity \<rparr>]) rest"

definition compactEntities :: "Entity list \<Rightarrow> Entity list" where
  "compactEntities entities =
     sweepX [] (sortBy compareXY (sweepY [] (sortBy compareYX entities)))"

text \<open>The children written back: the entities that are not local, in their final order.\<close>

fun updatedChildrenOf :: "Entity list \<Rightarrow> ModuleNode list" where
  "updatedChildrenOf [] = []"
| "updatedChildrenOf (e # es) =
     (case origin e of
        LocalLogic \<Rightarrow> updatedChildrenOf es
      | Original c \<Rightarrow>
          ModuleNode ((attrs c)\<lparr> nodeX := entX e, nodeY := entY e \<rparr>) (children c)
            # updatedChildrenOf es)"

definition organizeChildrenMosaic :: "ModuleNode \<Rightarrow> TechNodeConfig \<Rightarrow> js_error + ModuleNode" where
  "organizeChildrenMosaic node config =
     (if children node = []
      then Inr (ModuleNode ((attrs node)\<lparr> internalX := Num 0, internalY := Num 0 \<rparr>) (children node))
      else
        let entities = compactEntities (moduleEntities node config)
        in case find isLocal entities of
             None \<Rightarrow> Inl TypeError
           | Some localLogic \<Rightarrow>
               let updatedChildren = updatedChildrenOf entities;
                   maxX = fold (\<lambda>c m. Math_max m (nodeX (attrs c) + sizeW (calculatePhysicalSize c config)))
                            updatedChildren (entX localLogic + entW localLogic);
                   maxY = fold (\<lambda>c m. Math_max m (nodeY (attrs c) + sizeH (calculatePhysicalSize c config)))
                            updatedChildren (entY localLogic + entH localLogic);
                   finalContentW = maxX + GLOBAL_MARGIN * Num 2;
                   finalContentH = maxY + GLOBAL_MARGIN * Num 2 + GLOBAL_HEADER;
                   actualRatio = toFixed2 (finalContentW / finalContentH)
               in Inr (ModuleNode
                    ((attrs node)\<lparr> internalX := entX localLogic, internalY := entY localLogic,
                       aspectRatio := actualRatio,
                       internalAspectRatio :=
                         (if isRatioLinked (attrs node) then actualRatio
                          else internalAspectRatio (attrs node)) \<rparr>)
                    updatedChildren))"


section \<open>The quantities of the Area Calculator, one by one\<close>

text \<open>
  The local constants of \<open>calculatePhysicalSize\<close> as functions of the node's fields, the
  configuration and the sized children. The lemmas of the next section show that the
  result of \<open>sizeFromChildren\<close> is made of exactly these.
\<close>

definition localAreaOf :: "NodeFields \<Rightarrow> TechNodeConfig \<Rightarrow> jsnum" where
  "localAreaOf f config =
     (orElse (registers f) (Num 0) * dffArea config
        + orElse (memoryBits f) (Num 0) * sramAreaPerBit config
        + orElse (logicGates f) (Num 0) * gateArea config) / utilization config"

definition contentArea :: "NodeFields \<Rightarrow> TechNodeConfig \<Rightarrow> (ModuleNode \<times> PhysicalSize) list \<Rightarrow> jsnum" where
  "contentArea f config info =
     localAreaOf f config + fold (\<lambda>c acc. acc + sizeW (snd c) * sizeH (snd c)) info (Num 0)"

definition localH :: "NodeFields \<Rightarrow> TechNodeConfig \<Rightarrow> jsnum" where
  "localH f config = Math_sqrt (localAreaOf f config / effectiveInternalAR f)"

definition localW :: "NodeFields \<Rightarrow> TechNodeConfig \<Rightarrow> jsnum" where
  "localW f config = localH f config * effectiveInternalAR f"

definition maxContentX :: "NodeFields \<Rightarrow> TechNodeConfig \<Rightarrow> (ModuleNode \<times> PhysicalSize) list \<Rightarrow> jsnum" where
  "maxContentX f config info =
     fold (\<lambda>c m. Math_max m (orElse (nodeX (attrs (fst c))) (Num 0) + sizeW (snd c)))
       info (orElse (internalX f) (Num 0) + localW f config)"

definition maxContentY :: "NodeFields \<Rightarrow> TechNodeConfig \<Rightarrow> (ModuleNode \<times> PhysicalSize) list \<Rightarrow> jsnum" where
  "maxContentY f config info =
     fold (\<lambda>c m. Math_max m (orElse (nodeY (attrs (fst c))) (Num 0) + sizeH (snd c)))
       info (orElse (internalY f) (Num 0) + localH f config)"

definition idealH :: "NodeFields \<Rightarrow> TechNodeConfig \<Rightarrow> (ModuleNode \<times> PhysicalSize) list \<Rightarrow> jsnum" where
  "idealH f config info = Math_sqrt (contentArea f config info / orElse (aspectRatio f) (Num 1))"

definition idealW :: "NodeFields \<Rightarrow> TechNodeConfig \<Rightarrow> (ModuleNode \<times> PhysicalSize) list \<Rightarrow> jsnum" where
  "idealW f config info = idealH f config info * orElse (aspectRatio f) (Num 1)"

definition W_min :: "NodeFields \<Rightarrow> TechNodeConfig \<Rightarrow> (ModuleNode \<times> PhysicalSize) list \<Rightarrow> jsnum" where
  "W_min f config info = maxContentX f config info + Num 48"

definition H_min :: "NodeFields \<Rightarrow> TechNodeConfig \<Rightarrow> (ModuleNode \<times> PhysicalSize) list \<Rightarrow> jsnum" where
  "H_min f config info = maxContentY f config info + Num 48 + Num 36"

section \<open>Concrete inputs\<close>

text \<open>
  A technology with unit areas and full utilisation, a leaf without resources (its
  footprint is the margin and header around its empty local-logic block, that is
  \<open>ix + 48\<close> by \<open>iy + 84\<close>), and a container without resources of its own.
\<close>

definition unitConfig :: TechNodeConfig where
  "unitConfig =
     \<lparr> techName = ''unit'', dffArea = Num 1, gateArea = Num 1, sramAreaPerBit = Num 1,
       utilization = Num 1 \<rparr>"

definition emptyLeaf :: "string \<Rightarrow> real \<Rightarrow> real \<Rightarrow> real \<Rightarrow> real \<Rightarrow> ModuleNode" where
  "emptyLeaf i px py ix iy =
     ModuleNode
       \<lparr> nodeId = i, nodeName = i, registers = Num 0, memoryBits = Num 0, logicGates = Num 0,
         nodeX = Num px, nodeY = Num py, internalX = Num ix, internalY = Num iy,
         aspectRatio = Num 1, internalAspectRatio = Num 1, isRatioLinked = False,
         color = None \<rparr> []"

definition container :: "string \<Rightarrow> real \<Rightarrow> ModuleNode list \<Rightarrow> ModuleNode" where
  "container i regs cs =
     ModuleNode
       \<lparr> nodeId = i, nodeName = i, registers = Num regs, memoryBits = Num 0, logicGates = Num 0,
         nodeX = Num 0, nodeY = Num 0, internalX = Num 0, internalY = Num 0,
         aspectRatio = Num 1, internalAspectRatio = Num 1, isRatioLinked = False,
         color = None \<rparr> cs"

text \<open>Two siblings of 100 by 100 at (0, 0) and (50, 50).\<close>

definition overlappingSiblings :: ModuleNode where
  "overlappingSiblings =
     container ''top'' 0 [emptyLeaf ''a'' 0 0 52 16, emptyLeaf ''b'' 50 50 52 16]"


text \<open>A leaf with one register whose stored internal ratio is negative, and not linked.\<close>

definition skewedLeaf :: ModuleNode where
  "skewedLeaf =
     ModuleNode
       \<lparr> nodeId = ''s'', nodeName = ''s'', registers = Num 1, memoryBits = Num 0, logicGates = Num 0,
         nodeX = Num 0, nodeY = Num 0, internalX = Num 0, internalY = Num 0,
         aspectRatio = Num 1, internalAspectRatio = Num (- 2), isRatioLinked = False,
         color = None \<rparr> []"

definition zeroUtilConfig :: TechNodeConfig where
  "zeroUtilConfig = unitConfig\<lparr> utilization := Num 0 \<rparr>"

section \<open>Vocabulary of the properties\<close>

text \<open>
  Two blocks collide when the detector's test succeeds on them; \<open>markersAt bs i j\<close> is
  what the pair of positions \<open>i < j\<close> contributes to the result. A point lies inside a
  rectangle when it is within its closed spans on both axes.
\<close>

definition collides :: "Block \<Rightarrow> Block \<Rightarrow> bool" where
  "collides a b = (xOverlap a b > Num 0 \<and> yOverlap a b > Num 0)"




text \<open>The partial update \<open>{ aspectRatio: 2 }\<close>.\<close>

definition ratioUpdate :: NodeUpdates where
  "ratioUpdate =
     \<lparr> updId = None, updName = None, updRegisters = None, updMemoryBits = None,
       updLogicGates = None, updX = None, updY = None, updInternalX = None,
       updInternalY = None, updAspectRatio = Some (Num 2), updInternalAspectRatio = None,
       updIsRatioLinked = None, updColor = None, updChildren = None \<rparr>"

text \<open>
  Valid inputs: finite non-negative resource counts and areas per unit, a finite positive
  utilization, finite coordinates, finite positive ratios, in the node and in every
  descendant.
\<close>

definition finiteNonneg :: "jsnum \<Rightarrow> bool" where
  "finiteNonneg a = (isNum a \<and> 0 \<le> val a)"

definition finitePos :: "jsnum \<Rightarrow> bool" where
  "finitePos a = (isNum a \<and> 0 < val a)"

definition validConfig :: "TechNodeConfig \<Rightarrow> bool" where
  "validConfig config =
     (finiteNonneg (dffArea config) \<and> finiteNonneg (sramAreaPerBit config)
      \<and> finiteNonneg (gateArea config) \<and> finitePos (utilization config))"

definition validFields :: "NodeFields \<Rightarrow> bool" where
  "validFields f =
     (finiteNonneg (registers f) \<and> finiteNonneg (memoryBits f) \<and> finiteNonneg (logicGates f)
      \<and> isNum (nodeX f) \<and> isNum (nodeY f) \<and> isNum (internalX f) \<and> isNum (internalY f)
      \<and> finitePos (aspectRatio f) \<and> finitePos (internalAspectRatio f))"

fun validNode :: "ModuleNode \<Rightarrow> bool" where
  "validNode (ModuleNode f cs) = (validFields f \<and> (\<forall>c \<in> set cs. validNode c))"

text \<open>Sized children with finite positions and finite non-negative sizes.\<close>

definition sizedChildren :: "(ModuleNode \<times> PhysicalSize) list \<Rightarrow> bool" where
  "sizedChildren info =
     (\<forall>c \<in> set info. isNum (nodeX (attrs (fst c))) \<and> isNum (nodeY (attrs (fst c)))
        \<and> finiteNonneg (sizeW (snd c)) \<and> finiteNonneg (sizeH (snd c)))"

text \<open>The quantities of the calculator over the reals, for valid inputs.\<close>

definition localAreaR :: "NodeFields \<Rightarrow> TechNodeConfig \<Rightarrow> real" where
  "localAreaR f config =
     (val (registers f) * val (dffArea config) + val (memoryBits f) * val (sramAreaPerBit config)
        + val (logicGates f) * val (gateArea config)) / val (utilization config)"

definition areaSumR :: "(ModuleNode \<times> PhysicalSize) list \<Rightarrow> real" where
  "areaSumR info = sum_list (map (\<lambda>c. val (sizeW (snd c)) * val (sizeH (snd c))) info)"

definition maxXR :: "(ModuleNode \<times> PhysicalSize) list \<Rightarrow> real \<Rightarrow> real" where
  "maxXR info a = fold (\<lambda>c m. max m (val (nodeX (attrs (fst c))) + val (sizeW (snd c)))) info a"

definition maxYR :: "(ModuleNode \<times> PhysicalSize) list \<Rightarrow> real \<Rightarrow> real" where
  "maxYR info a = fold (\<lambda>c m. max m (val (nodeY (attrs (fst c))) + val (sizeH (snd c)))) info a"

definition contentAreaR :: "NodeFields \<Rightarrow> TechNodeConfig \<Rightarrow> (ModuleNode \<times> PhysicalSize) list \<Rightarrow> real" where
  "contentAreaR f config info = localAreaR f config + areaSumR info"

definition idealHR :: "NodeFields \<Rightarrow> TechNodeConfig \<Rightarrow> (ModuleNode \<times> PhysicalSize) list \<Rightarrow> real" where
  "idealHR f config info = sqrt (contentAreaR f config info / val (aspectRatio f))"

definition idealWR :: "NodeFields \<Rightarrow> TechNodeConfig \<Rightarrow> (ModuleNode \<times> PhysicalSize) list \<Rightarrow> real" where
  "idealWR f config info = idealHR f config info * val (aspectRatio f)"

definition localHR :: "NodeFields \<Rightarrow> TechNodeConfig \<Rightarrow> real" where
  "localHR f config = sqrt (localAreaR f config / val (effectiveInternalAR f))"

definition localWR :: "NodeFields \<Rightarrow> TechNodeConfig \<Rightarrow> real" where
  "localWR f config = localHR f config * val (effectiveInternalAR f)"

definition minWR :: "NodeFields \<Rightarrow> TechNodeConfig \<Rightarrow> (ModuleNode \<times> PhysicalSize) list \<Rightarrow> real" where
  "minWR f config info = maxXR info (val (internalX f) + localWR f config) + 48"

definition minHR :: "NodeFields \<Rightarrow> TechNodeConfig \<Rightarrow> (ModuleNode \<times> PhysicalSize) list \<Rightarrow> real" where
  "minHR f config info = maxYR info (val (internalY f) + localHR f config) + 84"

text \<open>
  A leaf with one register and a container with \<open>regs\<close> registers whose only child, an
  empty leaf, sits far away at (1000, 1000).
\<close>

definition unitLeaf :: ModuleNode where
  "unitLeaf = container ''u'' 1 []"

definition crowdedParent :: "real \<Rightarrow> ModuleNode" where
  "crowdedParent regs = container ''p'' regs [emptyLeaf ''c'' 1000 1000 0 0]"

text \<open>
  Three children whose footprints are 100 by 100.5 at (0, 0), 100 by 84 at (200, 0) and
  100 by 100 at (200, 100); no two of them overlap.
\<close>

definition slidingChildren :: ModuleNode where
  "slidingChildren =
     container ''top'' 0
       [emptyLeaf ''a'' 0 0 52 (33 / 2), emptyLeaf ''b'' 200 0 52 0, emptyLeaf ''c'' 200 100 52 16]"

text \<open>
  Three children whose footprints are 100 by 100 at (100, 0), 100 by 100 at (150, 110) and
  120 by 100 at (0, 120); no two of them overlap.
\<close>

definition shiftingChildren :: ModuleNode where
  "shiftingChildren =
     container ''top'' 0
       [emptyLeaf ''f'' 100 0 52 16, emptyLeaf ''e'' 150 110 52 16, emptyLeaf ''g'' 0 120 72 16]"

text \<open>The container \<open>top\<close> as a compaction returns it, with its new ratio and children.\<close>

definition compacted :: "real \<Rightarrow> ModuleNode list \<Rightarrow> ModuleNode" where
  "compacted ratio cs =
     ModuleNode
       \<lparr> nodeId = ''top'', nodeName = ''top'', registers = Num 0, memoryBits = Num 0,
         logicGates = Num 0, nodeX = Num 0, nodeY = Num 0, internalX = Num 0, internalY = Num 0,
         aspectRatio = Num ratio, internalAspectRatio = Num 1, isRatioLinked = False,
         color = None \<rparr> cs"

text \<open>A number that passes the test \<open>v >= 0\<close>, and an entity whose four numbers are finite.\<close>

definition nonneg :: "jsnum \<Rightarrow> bool" where
  "nonneg v = (Num 0 \<le> v)"

definition finiteEntity :: "Entity \<Rightarrow> bool" where
  "finiteEntity e = (isNum (entX e) \<and> isNum (entY e) \<and> isNum (entW e) \<and> isNum (entH e))"

text \<open>
  \<open>placedClear a b\<close>: where \<open>b\<close>, placed after \<open>a\<close> by the horizontal sweep, shares more
  than one unit of height with \<open>a\<close>, it starts at least the gap to the right of \<open>a\<close>.
  \<open>clearOf\<close> is the same without the order. \<open>lowOverlap\<close>: two blocks that collide do so
  on a height of at most one unit. \<open>toBlock\<close> is the detector's block of a compacted entity.
\<close>

definition placedClear :: "Entity \<Rightarrow> Entity \<Rightarrow> bool" where
  "placedClear a b =
     (spanOverlapY b a > Num 1 \<longrightarrow> entX a + entW a + INTER_MODULE_GAP \<le> entX b)"

definition clearOf :: "Entity \<Rightarrow> Entity \<Rightarrow> bool" where
  "clearOf a b = (placedClear a b \<or> placedClear b a)"

definition lowOverlap :: "Block \<Rightarrow> Block \<Rightarrow> bool" where
  "lowOverlap a b = (collides a b \<longrightarrow> yOverlap a b \<le> Num 1)"

definition toBlock :: "Entity \<Rightarrow> Block" where
  "toBlock e =
     \<lparr> blkId = entId e,
       blkName = (case origin e of LocalLogic \<Rightarrow> ''[Local Logic]'' | Original c \<Rightarrow> nodeName (attrs c)),
       blkX = entX e, blkY = entY e, blkW = entW e, blkH = entH e \<rparr>"

text \<open>An entity carries the id and the size that the node and the configuration give it.\<close>

definition sizedBy :: "ModuleNode \<Rightarrow> TechNodeConfig \<Rightarrow> Entity \<Rightarrow> bool" where
  "sizedBy node config e =
     (case origin e of
        LocalLogic \<Rightarrow>
          entId e = ''internal'' \<and> entW e = localW (attrs node) config
          \<and> entH e = localH (attrs node) config
      | Original c \<Rightarrow>
          entId e = nodeId (attrs c) \<and> entW e = sizeW (calculatePhysicalSize c config)
          \<and> entH e = sizeH (calculatePhysicalSize c config))"

text \<open>
  A ratio-linked container with 10000 registers (its local-logic block is 100 by 100 at
  the origin) and one child of 100 by 100 at (0, 200), and the same container as a
  compaction returns it.
\<close>

definition linkedParent :: "real \<Rightarrow> real \<Rightarrow> ModuleNode" where
  "linkedParent ratio childY =
     ModuleNode
       \<lparr> nodeId = ''top'', nodeName = ''top'', registers = Num 10000, memoryBits = Num 0,
         logicGates = Num 0, nodeX = Num 0, nodeY = Num 0, internalX = Num 0, internalY = Num 0,
         aspectRatio = Num ratio, internalAspectRatio = Num ratio, isRatioLinked = True,
         color = None \<rparr> [emptyLeaf ''c'' 0 childY 52 16]"


text \<open>
  A leaf with 16 registers that is not linked: the container ratio is 1, the stored
  internal ratio is 4, so its local-logic block is 8 wide and 2 high.
\<close>

definition slimLogic :: ModuleNode where
  "slimLogic =
     ModuleNode
       \<lparr> nodeId = ''n'', nodeName = ''n'', registers = Num 16, memoryBits = Num 0, logicGates = Num 0,
         nodeX = Num 0, nodeY = Num 0, internalX = Num 0, internalY = Num 0,
         aspectRatio = Num 1, internalAspectRatio = Num 4, isRatioLinked = False,
         color = None \<rparr> []"

text \<open>
  The local logic of the node and of every descendant sits at non-negative \<open>internalX\<close>
  and \<open>internalY\<close>. Every footprint in the tree is then at least the envelope of 48 by 84,
  so that no width times height is zero times infinity.
\<close>

fun placedNode :: "ModuleNode \<Rightarrow> bool" where
  "placedNode (ModuleNode f cs) =
     (0 \<le> val (internalX f) \<and> 0 \<le> val (internalY f) \<and> (\<forall>c \<in> set cs. placedNode c))"

section \<open>Properties\<close>

subsection \<open>Arithmetic on finite numbers\<close>

lemma minus_Num [simp]: "Num a - Num b = Num (a - b)"
  by (simp add: minus_jsnum_def)

lemma Math_max_Num [simp]: "Math_max (Num a) (Num b) = Num (max a b)"
  by (simp add: Math_max_def max_def)

lemma Math_min_Num [simp]: "Math_min (Num a) (Num b) = Num (min a b)"
  by (simp add: Math_min_def min_def)

lemma orElse_Num [simp]: "orElse (Num a) b = (if a = 0 then b else Num a)"
  by (simp add: orElse_def)

lemma envelope_constants [simp]:
  "GLOBAL_MARGIN * Num 2 = Num 48" "GLOBAL_HEADER = Num 36" "INTER_MODULE_GAP = Num 16"
  by (simp_all add: GLOBAL_MARGIN_def GLOBAL_HEADER_def INTER_MODULE_GAP_def)

lemma sqrt_10000: "sqrt 10000 = 100"
  by (rule real_sqrt_unique) simp_all

lemma sqrt_16: "sqrt 16 = 4"
  by (rule real_sqrt_unique) simp_all

lemma isNum_iff: "isNum a \<longleftrightarrow> (\<exists>r. a = Num r)"
  by (cases a) auto

subsection \<open>The result of the Area Calculator, field by field\<close>

lemmas view_defs = localAreaOf_def contentArea_def localH_def localW_def maxContentX_def maxContentY_def
  idealH_def idealW_def W_min_def H_min_def

lemma sizeW_view: "sizeW (sizeFromChildren f config info) = Math_max (idealW f config info) (W_min f config info)"
  by (simp add: sizeFromChildren_def Let_def view_defs)

lemma sizeH_view: "sizeH (sizeFromChildren f config info) = Math_max (idealH f config info) (H_min f config info)"
  by (simp add: sizeFromChildren_def Let_def view_defs)

lemma stats_view:
  "stats (sizeFromChildren f config info) =
    \<lparr> statId = nodeId f, statName = nodeName f,
      localArea = localAreaOf f config,
      childrenArea = fold (\<lambda>c acc. acc + sizeW (snd c) * sizeH (snd c)) info (Num 0),
      totalArea = sizeW (sizeFromChildren f config info) * sizeH (sizeFromChildren f config info),
      regArea = orElse (registers f) (Num 0) * dffArea config,
      memArea = orElse (memoryBits f) (Num 0) * sramAreaPerBit config,
      logicArea = orElse (logicGates f) (Num 0) * gateArea config,
      utilizationOverhead =
        sizeW (sizeFromChildren f config info) * sizeH (sizeFromChildren f config info) * utilization config
        - (orElse (registers f) (Num 0) * dffArea config
            + orElse (memoryBits f) (Num 0) * sramAreaPerBit config
            + orElse (logicGates f) (Num 0) * gateArea config),
      calculatedWidth = sizeW (sizeFromChildren f config info),
      calculatedHeight = sizeH (sizeFromChildren f config info),
      idealWidth = idealW f config info, idealHeight = idealH f config info,
      minFeasibleRatio =
        Math_min (W_min f config info * W_min f config info / contentArea f config info)
          (contentArea f config info / (H_min f config info * H_min f config info)),
      maxFeasibleRatio =
        Math_max (W_min f config info * W_min f config info / contentArea f config info)
          (contentArea f config info / (H_min f config info * H_min f config info)) \<rparr>"
  by (simp add: sizeFromChildren_def Let_def view_defs)

lemma sizeFromChildren_eqI:
  assumes "sizeW a = sizeW b" "sizeH a = sizeH b" "stats a = stats b"
  shows "(a :: PhysicalSize) = b"
  using assms by (rule PhysicalSize.equality) simp

subsection \<open>Overlap Detector\<close>

lemma checkAgainst_eq:
  "checkAgainst a bs ms = ms @ concat (map (\<lambda>b. if collides a b then [markerOf a b] else []) bs)"
  by (induction bs arbitrary: ms) (simp_all add: collides_def)












subsection \<open>Tree-rewrite helpers\<close>

lemma update_absent: "i \<notin> set (treeIds t) \<Longrightarrow> updateNodeInTree t i u = t"
  by (induction t i u rule: updateNodeInTree.induct) (auto simp: map_idI)

lemma keep_all_some: "map the (filter (\<lambda>c. c \<noteq> None) (map Some cs)) = cs"
  by (induction cs) auto

lemma delete_absent: "i \<notin> set (treeIds t) \<Longrightarrow> deleteNodeInTree t i = Some t"
proof (induction t i rule: deleteNodeInTree.induct)
  case (1 f cs i)
  have ne: "nodeId f \<noteq> i" using 1(2) by auto
  have "map (\<lambda>child. deleteNodeInTree child i) cs = map Some cs"
    using 1 by auto
  then have "map the (filter (\<lambda>c. c \<noteq> None) (map (\<lambda>child. deleteNodeInTree child i) cs)) = cs"
    by (simp only: keep_all_some)
  then show ?case using ne by simp
qed

lemma add_absent: "i \<notin> set (treeIds t) \<Longrightarrow> addNodeToParent t i n = t"
  by (induction t i n rule: addNodeToParent.induct) (auto simp: map_idI)

text \<open>
  C8. For an id that no node of the tree carries, \<open>updateNodeInTree\<close>, \<open>deleteNodeInTree\<close>
  and \<open>addNodeToParent\<close> each return the tree they were given; none of them fails.
\<close>

theorem unknown_id_is_noop:
  "i \<notin> set (treeIds t) \<Longrightarrow>
     updateNodeInTree t i u = t \<and> deleteNodeInTree t i = Some t \<and> addNodeToParent t i n = t"
  by (simp add: update_absent delete_absent add_absent)

theorem unknown_id_is_noop_witness:
  "''ghost'' \<notin> set (treeIds overlappingSiblings)
   \<and> updateNodeInTree overlappingSiblings ''ghost'' ratioUpdate = overlappingSiblings
   \<and> deleteNodeInTree overlappingSiblings ''ghost'' = Some overlappingSiblings
   \<and> addNodeToParent overlappingSiblings ''ghost'' (emptyLeaf ''c'' 0 0 0 0) = overlappingSiblings"
proof -
  have h: "''ghost'' \<notin> set (treeIds overlappingSiblings)"
    by (simp add: overlappingSiblings_def container_def emptyLeaf_def)
  show ?thesis
    using h unknown_id_is_noop [OF h, of ratioUpdate "emptyLeaf ''c'' 0 0 0 0"] by simp
qed

subsection \<open>Effective internal ratio\<close>

lemma sizeFromChildren_linked:
  "isRatioLinked f \<Longrightarrow>
     sizeFromChildren (f\<lparr> internalAspectRatio := stale \<rparr>) config info = sizeFromChildren f config info"
  by (rule sizeFromChildren_eqI)
     (simp_all add: sizeW_view sizeH_view stats_view view_defs effectiveInternalAR_def)

lemma orElse_one: "orElse a (Num 1) = (if a = Num 0 \<or> a = NaN then Num 1 else a)"
  by (cases a) (auto simp: orElse_def)

text \<open>
  C9, as a counterexample to the claim as stated: a stored internal ratio of \<open>-2\<close> on a node
  that is not linked is not replaced by 1; it is the effective ratio, and the width of the
  node becomes NaN.
\<close>

theorem negative_internal_ratio_is_kept:
  "\<not> isRatioLinked (attrs skewedLeaf)
   \<and> internalAspectRatio (attrs skewedLeaf) = Num (- 2)
   \<and> effectiveInternalAR (attrs skewedLeaf) = Num (- 2)
   \<and> sizeW (calculatePhysicalSize skewedLeaf unitConfig) = NaN"
  by (simp add: skewedLeaf_def effectiveInternalAR_def unitConfig_def sizeW_view view_defs
      Math_max_def)

lemma sized_width:
  "sizeW (calculatePhysicalSize (ModuleNode f cs) config) =
     Math_max (idealWidth (stats (calculatePhysicalSize (ModuleNode f cs) config)))
       (fold (\<lambda>c m. Math_max m (orElse (nodeX (attrs c)) (Num 0)
                                 + sizeW (calculatePhysicalSize c config)))
          cs
          (orElse (internalX f) (Num 0)
             + Math_sqrt (localArea (stats (calculatePhysicalSize (ModuleNode f cs) config))
                 / effectiveInternalAR f) * effectiveInternalAR f)
        + Num 48)"
  by (simp add: sizeW_view stats_view W_min_def maxContentX_def localW_def localH_def fold_map
      comp_def)

lemma sized_height:
  "sizeH (calculatePhysicalSize (ModuleNode f cs) config) =
     Math_max (idealHeight (stats (calculatePhysicalSize (ModuleNode f cs) config)))
       (fold (\<lambda>c m. Math_max m (orElse (nodeY (attrs c)) (Num 0)
                                 + sizeH (calculatePhysicalSize c config)))
          cs
          (orElse (internalY f) (Num 0)
             + Math_sqrt (localArea (stats (calculatePhysicalSize (ModuleNode f cs) config))
                 / effectiveInternalAR f))
        + Num 48 + Num 36)"
  by (simp add: sizeH_view stats_view H_min_def maxContentY_def localH_def fold_map comp_def)

lemma slimLogic_size:
  "sizeW (calculatePhysicalSize slimLogic unitConfig) = Num 56"
  "sizeH (calculatePhysicalSize slimLogic unitConfig) = Num 86"
  by (simp_all add: slimLogic_def unitConfig_def sizeW_view sizeH_view view_defs
      effectiveInternalAR_def sqrt_16)

text \<open>
  C9, amended. The effective internal ratio is \<open>aspectRatio\<close> when the node is linked, and
  otherwise \<open>internalAspectRatio\<close> with 1 substituted when that is zero or NaN (a negative
  value is kept). It is the ratio that sizes the node: the calculated width is the larger
  of the ideal width and the envelope around the children and the local-logic block, and
  that block, at \<open>internalX\<close>, \<open>internalY\<close>, is \<open>sqrt (localArea / ratio)\<close> high and that
  times the ratio wide, with this ratio; likewise the height. The size of a linked node
  does not depend on the stored \<open>internalAspectRatio\<close>. A leaf with 16 registers that is
  not linked, container ratio 1 and internal ratio 4, is 56 by 86 (its block 8 by 2).
\<close>

theorem effectiveInternalAR_cases:
  "effectiveInternalAR f =
     (if isRatioLinked f then aspectRatio f
      else if internalAspectRatio f = Num 0 \<or> internalAspectRatio f = NaN then Num 1
      else internalAspectRatio f)
   \<and> sizeW (calculatePhysicalSize (ModuleNode f cs) config) =
       Math_max (idealWidth (stats (calculatePhysicalSize (ModuleNode f cs) config)))
         (fold (\<lambda>c m. Math_max m (orElse (nodeX (attrs c)) (Num 0)
                                   + sizeW (calculatePhysicalSize c config)))
            cs
            (orElse (internalX f) (Num 0)
               + Math_sqrt (localArea (stats (calculatePhysicalSize (ModuleNode f cs) config))
                   / effectiveInternalAR f) * effectiveInternalAR f)
          + Num 48)
   \<and> sizeH (calculatePhysicalSize (ModuleNode f cs) config) =
       Math_max (idealHeight (stats (calculatePhysicalSize (ModuleNode f cs) config)))
         (fold (\<lambda>c m. Math_max m (orElse (nodeY (attrs c)) (Num 0)
                                   + sizeH (calculatePhysicalSize c config)))
            cs
            (orElse (internalY f) (Num 0)
               + Math_sqrt (localArea (stats (calculatePhysicalSize (ModuleNode f cs) config))
                   / effectiveInternalAR f))
          + Num 48 + Num 36)
   \<and> calculatePhysicalSize
         (ModuleNode (f\<lparr> isRatioLinked := True, internalAspectRatio := stale \<rparr>) cs) config
       = calculatePhysicalSize (ModuleNode (f\<lparr> isRatioLinked := True \<rparr>) cs) config
   \<and> sizeW (calculatePhysicalSize slimLogic unitConfig) = Num 56
   \<and> sizeH (calculatePhysicalSize slimLogic unitConfig) = Num 86"
proof -
  have cases: "effectiveInternalAR f =
     (if isRatioLinked f then aspectRatio f
      else if internalAspectRatio f = Num 0 \<or> internalAspectRatio f = NaN then Num 1
      else internalAspectRatio f)"
    by (simp add: effectiveInternalAR_def orElse_one)
  have linked: "calculatePhysicalSize
         (ModuleNode (f\<lparr> isRatioLinked := True, internalAspectRatio := stale \<rparr>) cs) config
       = calculatePhysicalSize (ModuleNode (f\<lparr> isRatioLinked := True \<rparr>) cs) config"
    using sizeFromChildren_linked[of "f\<lparr> isRatioLinked := True \<rparr>" stale config] by simp
  show ?thesis
    by (intro conjI cases sized_width sized_height linked slimLogic_size)
qed

subsection \<open>Invalid configuration\<close>

lemma divide_by_zero_not_finite: "\<not> isNum (a / Num 0)"
  by (cases a) (simp_all add: signedInf_def)

text \<open>
  C6, as a counterexample to the claim as stated: with \<open>utilization = 0\<close> and one register
  the calculator returns a result whose local area and width are \<open>+Infinity\<close>.
\<close>

theorem zero_utilization_is_divided_by:
  "utilization zeroUtilConfig = Num 0
   \<and> localArea (stats (calculatePhysicalSize (container ''n'' 1 []) zeroUtilConfig)) = PosInf
   \<and> sizeW (calculatePhysicalSize (container ''n'' 1 []) zeroUtilConfig) = PosInf"
  by (simp add: zeroUtilConfig_def container_def effectiveInternalAR_def unitConfig_def
      sizeW_view stats_view view_defs Math_max_def signedInf_def)

text \<open>
  C6, amended. The calculator validates nothing: the raw areas it reports are the counts
  times the areas per unit as given, the local area is their sum divided by
  \<open>utilization\<close>, whatever that is, and with \<open>utilization = 0\<close> the local area is never
  a finite number (an infinity or NaN).
\<close>

theorem localArea_is_unguarded_quotient:
  "regArea (stats (calculatePhysicalSize node config))
     = orElse (registers (attrs node)) (Num 0) * dffArea config
   \<and> memArea (stats (calculatePhysicalSize node config))
     = orElse (memoryBits (attrs node)) (Num 0) * sramAreaPerBit config
   \<and> logicArea (stats (calculatePhysicalSize node config))
     = orElse (logicGates (attrs node)) (Num 0) * gateArea config
   \<and> localArea (stats (calculatePhysicalSize node config)) =
     (regArea (stats (calculatePhysicalSize node config))
        + memArea (stats (calculatePhysicalSize node config))
        + logicArea (stats (calculatePhysicalSize node config))) / utilization config
   \<and> \<not> isNum (localArea (stats (calculatePhysicalSize node (config\<lparr> utilization := Num 0 \<rparr>))))"
  by (cases node) (simp add: stats_view localAreaOf_def divide_by_zero_not_finite)

subsection \<open>Nodes without content\<close>

text \<open>
  C2, as a counterexample to the claim as stated: a leaf without resources and without
  children, its local logic at the origin, has the footprint 48 by 84.
\<close>

theorem zero_content_has_envelope_size:
  "children (emptyLeaf ''z'' 0 0 0 0) = []
   \<and> registers (attrs (emptyLeaf ''z'' 0 0 0 0)) = Num 0
   \<and> memoryBits (attrs (emptyLeaf ''z'' 0 0 0 0)) = Num 0
   \<and> logicGates (attrs (emptyLeaf ''z'' 0 0 0 0)) = Num 0
   \<and> sizeW (calculatePhysicalSize (emptyLeaf ''z'' 0 0 0 0) unitConfig) = Num 48
   \<and> sizeH (calculatePhysicalSize (emptyLeaf ''z'' 0 0 0 0) unitConfig) = Num 84"
  by (simp add: emptyLeaf_def effectiveInternalAR_def unitConfig_def sizeW_view sizeH_view
      view_defs)

text \<open>
  C2, amended. For a node without children whose resource counts are zero, under a
  configuration with finite areas and a finite utilization other than zero, with a
  positive aspect ratio, a finite effective internal ratio other than zero and the local
  logic at finite non-negative \<open>(ix, iy)\<close>: the ideal width and height are 0, the
  calculated width and height are the envelope \<open>ix + 48\<close> and \<open>iy + 84\<close>, and the feasible
  interval is reported as 0 to \<open>+Infinity\<close>. No field is NaN.
\<close>

theorem zero_content_size:
  assumes "registers f = Num 0" "memoryBits f = Num 0" "logicGates f = Num 0"
    and "isNum (dffArea config)" "isNum (sramAreaPerBit config)" "isNum (gateArea config)"
    and "utilization config = Num u" "u \<noteq> 0"
    and "aspectRatio f = Num r" "0 < r" "effectiveInternalAR f = Num e" "e \<noteq> 0"
    and "internalX f = Num ix" "0 \<le> ix" "internalY f = Num iy" "0 \<le> iy"
  shows "calculatePhysicalSize (ModuleNode f []) config =
     \<lparr> sizeW = Num (ix + 48), sizeH = Num (iy + 84),
       stats = \<lparr> statId = nodeId f, statName = nodeName f,
             localArea = Num 0, childrenArea = Num 0,
             totalArea = Num ((ix + 48) * (iy + 84)),
             regArea = Num 0, memArea = Num 0, logicArea = Num 0,
             utilizationOverhead = Num ((ix + 48) * (iy + 84) * u),
             calculatedWidth = Num (ix + 48), calculatedHeight = Num (iy + 84),
             idealWidth = Num 0, idealHeight = Num 0,
             minFeasibleRatio = Num 0,
             maxFeasibleRatio = PosInf \<rparr> \<rparr>"
proof -
  have la: "localAreaOf f config = Num 0"
    using assms by (auto simp: isNum_iff localAreaOf_def)
  have ca: "contentArea f config [] = Num 0"
    by (simp add: contentArea_def la)
  have lh: "localH f config = Num 0" "localW f config = Num 0"
    using assms by (simp_all add: localH_def localW_def la)
  have ih: "idealH f config [] = Num 0" "idealW f config [] = Num 0"
    using assms by (simp_all add: idealH_def idealW_def ca)
  have mx: "W_min f config [] = Num (ix + 48)" "H_min f config [] = Num (iy + 84)"
    using assms by (simp_all add: W_min_def H_min_def maxContentX_def maxContentY_def lh)
  have w: "sizeW (sizeFromChildren f config []) = Num (ix + 48)"
    "sizeH (sizeFromChildren f config []) = Num (iy + 84)"
    using assms by (simp_all add: sizeW_view sizeH_view ih mx)
  have raw: "orElse (registers f) (Num 0) * dffArea config = Num 0"
    "orElse (memoryBits f) (Num 0) * sramAreaPerBit config = Num 0"
    "orElse (logicGates f) (Num 0) * gateArea config = Num 0"
    using assms by (auto simp: isNum_iff)
  have st: "stats (sizeFromChildren f config []) =
     \<lparr> statId = nodeId f, statName = nodeName f,
       localArea = Num 0, childrenArea = Num 0,
       totalArea = Num ((ix + 48) * (iy + 84)),
       regArea = Num 0, memArea = Num 0, logicArea = Num 0,
       utilizationOverhead = Num ((ix + 48) * (iy + 84) * u),
       calculatedWidth = Num (ix + 48), calculatedHeight = Num (iy + 84),
       idealWidth = Num 0, idealHeight = Num 0,
       minFeasibleRatio = Num 0,
       maxFeasibleRatio = PosInf \<rparr>"
    using assms(7,14,16)
    by (simp add: stats_view w la ca ih mx raw signedInf_def Math_min_def Math_max_def)
  show ?thesis
    by (rule sizeFromChildren_eqI) (simp_all add: w st)
qed

theorem zero_content_size_witness:
  "calculatePhysicalSize (emptyLeaf ''z'' 0 0 4 6) unitConfig =
     \<lparr> sizeW = Num 52, sizeH = Num 90,
       stats = \<lparr> statId = ''z'', statName = ''z'',
             localArea = Num 0, childrenArea = Num 0,
             totalArea = Num 4680,
             regArea = Num 0, memArea = Num 0, logicArea = Num 0,
             utilizationOverhead = Num 4680,
             calculatedWidth = Num 52, calculatedHeight = Num 90,
             idealWidth = Num 0, idealHeight = Num 0,
             minFeasibleRatio = Num 0,
             maxFeasibleRatio = PosInf \<rparr> \<rparr>"
  using zero_content_size [of "attrs (emptyLeaf ''z'' 0 0 4 6)" unitConfig 1 1 1 4 6]
  by (simp add: emptyLeaf_def unitConfig_def effectiveInternalAR_def)

subsection \<open>The Area Calculator on valid inputs\<close>

lemma localAreaOf_valid:
  assumes "validConfig config" "validFields f"
  shows "localAreaOf f config = Num (localAreaR f config)" "0 \<le> localAreaR f config"
proof -
  obtain r m g d s ga u where v:
    "registers f = Num r" "memoryBits f = Num m" "logicGates f = Num g"
    "dffArea config = Num d" "sramAreaPerBit config = Num s" "gateArea config = Num ga"
    "utilization config = Num u" "0 \<le> r" "0 \<le> m" "0 \<le> g" "0 \<le> d" "0 \<le> s" "0 \<le> ga" "0 < u"
    using assms by (auto simp: validConfig_def validFields_def finiteNonneg_def finitePos_def isNum_iff)
  show "localAreaOf f config = Num (localAreaR f config)"
    using v by (simp add: localAreaOf_def localAreaR_def)
  show "0 \<le> localAreaR f config"
    using v by (simp add: localAreaR_def)
qed

lemma areaSum_fold:
  "sizedChildren info \<Longrightarrow>
     fold (\<lambda>c acc. acc + sizeW (snd c) * sizeH (snd c)) info (Num a) = Num (a + areaSumR info)"
proof (induction info arbitrary: a)
  case Nil
  then show ?case by (simp add: areaSumR_def)
next
  case (Cons c info)
  then obtain w h where wh: "sizeW (snd c) = Num w" "sizeH (snd c) = Num h"
    by (auto simp: sizedChildren_def finiteNonneg_def isNum_iff)
  have "sizedChildren info" using Cons.prems by (simp add: sizedChildren_def)
  from Cons.IH[OF this] show ?case
    by (simp add: wh areaSumR_def algebra_simps)
qed

lemma areaSumR_nonneg: "sizedChildren info \<Longrightarrow> 0 \<le> areaSumR info"
  unfolding areaSumR_def sizedChildren_def finiteNonneg_def
  by (rule sum_list_nonneg) auto

lemma maxX_fold:
  "sizedChildren info \<Longrightarrow>
     fold (\<lambda>c m. Math_max m (orElse (nodeX (attrs (fst c))) (Num 0) + sizeW (snd c))) info (Num a)
       = Num (maxXR info a)"
proof (induction info arbitrary: a)
  case Nil
  then show ?case by (simp add: maxXR_def)
next
  case (Cons c info)
  then obtain px w where wh: "nodeX (attrs (fst c)) = Num px" "sizeW (snd c) = Num w"
    by (auto simp: sizedChildren_def finiteNonneg_def isNum_iff)
  have "sizedChildren info" using Cons.prems by (simp add: sizedChildren_def)
  from Cons.IH[OF this] show ?case
    by (simp add: wh maxXR_def)
qed

lemma maxY_fold:
  "sizedChildren info \<Longrightarrow>
     fold (\<lambda>c m. Math_max m (orElse (nodeY (attrs (fst c))) (Num 0) + sizeH (snd c))) info (Num a)
       = Num (maxYR info a)"
proof (induction info arbitrary: a)
  case Nil
  then show ?case by (simp add: maxYR_def)
next
  case (Cons c info)
  then obtain py h where wh: "nodeY (attrs (fst c)) = Num py" "sizeH (snd c) = Num h"
    by (auto simp: sizedChildren_def finiteNonneg_def isNum_iff)
  have "sizedChildren info" using Cons.prems by (simp add: sizedChildren_def)
  from Cons.IH[OF this] show ?case
    by (simp add: wh maxYR_def)
qed

lemma maxXR_mono: "a \<le> b \<Longrightarrow> maxXR info a \<le> maxXR info b"
  unfolding maxXR_def by (induction info arbitrary: a b) (simp_all add: max.mono)

lemma maxYR_mono: "a \<le> b \<Longrightarrow> maxYR info a \<le> maxYR info b"
  unfolding maxYR_def by (induction info arbitrary: a b) (simp_all add: max.mono)

lemma maxXR_ge: "a \<le> maxXR info a"
  unfolding maxXR_def
proof (induction info arbitrary: a)
  case (Cons c info)
  have "a \<le> max a (val (nodeX (attrs (fst c))) + val (sizeW (snd c)))" by simp
  also have "\<dots> \<le> fold (\<lambda>c m. max m (val (nodeX (attrs (fst c))) + val (sizeW (snd c)))) info
      (max a (val (nodeX (attrs (fst c))) + val (sizeW (snd c))))"
    by (rule Cons.IH)
  finally show ?case by simp
qed simp

lemma maxYR_ge: "a \<le> maxYR info a"
  unfolding maxYR_def
proof (induction info arbitrary: a)
  case (Cons c info)
  have "a \<le> max a (val (nodeY (attrs (fst c))) + val (sizeH (snd c)))" by simp
  also have "\<dots> \<le> fold (\<lambda>c m. max m (val (nodeY (attrs (fst c))) + val (sizeH (snd c)))) info
      (max a (val (nodeY (attrs (fst c))) + val (sizeH (snd c))))"
    by (rule Cons.IH)
  finally show ?case by simp
qed simp

lemma effectiveInternalAR_valid:
  assumes "validFields f"
  shows "effectiveInternalAR f = Num (val (effectiveInternalAR f))" "0 < val (effectiveInternalAR f)"
  using assms
  by (auto simp: validFields_def finitePos_def isNum_iff effectiveInternalAR_def)

lemma real_view:
  assumes "validConfig config" "validFields f" "sizedChildren info"
  shows "contentArea f config info = Num (contentAreaR f config info)"
    and "0 \<le> contentAreaR f config info"
    and "localH f config = Num (localHR f config)"
    and "localW f config = Num (localWR f config)"
    and "idealH f config info = Num (idealHR f config info)"
    and "idealW f config info = Num (idealWR f config info)"
    and "W_min f config info = Num (minWR f config info)"
    and "H_min f config info = Num (minHR f config info)"
    and "sizeW (sizeFromChildren f config info) = Num (max (idealWR f config info) (minWR f config info))"
    and "sizeH (sizeFromChildren f config info) = Num (max (idealHR f config info) (minHR f config info))"
proof -
  note la = localAreaOf_valid[OF assms(1,2)]
  note e = effectiveInternalAR_valid[OF assms(2)]
  obtain r ix iy where v: "aspectRatio f = Num r" "0 < r" "internalX f = Num ix" "internalY f = Num iy"
    using assms(2) by (auto simp: validFields_def finitePos_def isNum_iff)
  show ca: "contentArea f config info = Num (contentAreaR f config info)"
    by (simp add: contentArea_def contentAreaR_def la areaSum_fold[OF assms(3)])
  show ca0: "0 \<le> contentAreaR f config info"
    using la(2) areaSumR_nonneg[OF assms(3)] by (simp add: contentAreaR_def)
  have q: "0 \<le> localAreaR f config / val (effectiveInternalAR f)"
    using la(2) e(2) by simp
  show lh: "localH f config = Num (localHR f config)"
    using q e(2) by (simp add: localH_def localHR_def la(1)) (subst e(1), simp)
  show lw: "localW f config = Num (localWR f config)"
    by (simp add: localW_def localWR_def lh) (subst e(1), simp)
  have q2: "0 \<le> contentAreaR f config info / r" using ca0 v(2) by simp
  show ih: "idealH f config info = Num (idealHR f config info)"
    using q2 v(2) by (simp add: idealH_def idealHR_def ca v(1))
  show iw: "idealW f config info = Num (idealWR f config info)"
    using v(2) by (simp add: idealW_def idealWR_def ih v(1))
  show wm: "W_min f config info = Num (minWR f config info)"
    by (simp add: W_min_def minWR_def maxContentX_def lw v maxX_fold[OF assms(3)])
  show hm: "H_min f config info = Num (minHR f config info)"
    by (simp add: H_min_def minHR_def maxContentY_def lh v maxY_fold[OF assms(3)])
  show "sizeW (sizeFromChildren f config info) = Num (max (idealWR f config info) (minWR f config info))"
    by (simp add: sizeW_view iw wm)
  show "sizeH (sizeFromChildren f config info) = Num (max (idealHR f config info) (minHR f config info))"
    by (simp add: sizeH_view ih hm)
qed

lemma idealR_nonneg:
  assumes "validConfig config" "validFields f" "sizedChildren info"
  shows "0 \<le> idealHR f config info" "0 \<le> idealWR f config info"
proof -
  have "0 < val (aspectRatio f)" using assms(2) by (simp add: validFields_def finitePos_def)
  then show "0 \<le> idealHR f config info" "0 \<le> idealWR f config info"
    using real_view(2)[OF assms] by (simp_all add: idealHR_def idealWR_def)
qed

lemma validNode_sized:
  assumes "validConfig config"
  shows "validNode n \<Longrightarrow> finiteNonneg (sizeW (calculatePhysicalSize n config))
     \<and> finiteNonneg (sizeH (calculatePhysicalSize n config))"
proof (induction n)
  case (ModuleNode f cs)
  have vf: "validFields f" using ModuleNode.prems by simp
  have sc: "sizedChildren (map (\<lambda>c. (c, calculatePhysicalSize c config)) cs)"
    unfolding sizedChildren_def
  proof
    fix ci assume "ci \<in> set (map (\<lambda>c. (c, calculatePhysicalSize c config)) cs)"
    then obtain c where c: "c \<in> set cs" "ci = (c, calculatePhysicalSize c config)" by auto
    then have vc: "validNode c" using ModuleNode.prems by simp
    from ModuleNode.IH[OF c(1) vc] vc
    show "isNum (nodeX (attrs (fst ci))) \<and> isNum (nodeY (attrs (fst ci)))
        \<and> finiteNonneg (sizeW (snd ci)) \<and> finiteNonneg (sizeH (snd ci))"
      by (cases c) (simp add: c(2) validFields_def)
  qed
  show ?case
    using idealR_nonneg[OF assms vf sc]
    by (simp add: real_view(9,10)[OF assms vf sc] finiteNonneg_def max.coboundedI1)
qed

lemma validNode_sizedChildren:
  assumes "validConfig config" "validNode (ModuleNode f cs)"
  shows "sizedChildren (map (\<lambda>c. (c, calculatePhysicalSize c config)) cs)"
  unfolding sizedChildren_def
proof
  fix ci assume "ci \<in> set (map (\<lambda>c. (c, calculatePhysicalSize c config)) cs)"
  then obtain c where c: "c \<in> set cs" "ci = (c, calculatePhysicalSize c config)" by auto
  then have vc: "validNode c" using assms(2) by simp
  from validNode_sized[OF assms(1) vc] vc
  show "isNum (nodeX (attrs (fst ci))) \<and> isNum (nodeY (attrs (fst ci)))
        \<and> finiteNonneg (sizeW (snd ci)) \<and> finiteNonneg (sizeH (snd ci))"
    by (cases c) (simp add: c(2) validFields_def)
qed

subsection \<open>Envelope dominance\<close>

lemma valid_examples:
  "validConfig unitConfig" "validNode (emptyLeaf i px py ix iy)"
  "0 \<le> regs \<Longrightarrow> (\<forall>c \<in> set cs. validNode c) \<Longrightarrow> validNode (container i regs cs)"
  by (simp_all add: validConfig_def unitConfig_def emptyLeaf_def container_def validFields_def
      finiteNonneg_def finitePos_def)

text \<open>
  C4, as a counterexample to the claim as stated: for a leaf with one register the aspect
  ratio 1 lies within the reported interval, from 1/7225 to 2401, and yet the calculated
  width is 49 where the ideal width is 1.
\<close>

theorem ratio_in_interval_without_equality:
  "minFeasibleRatio (stats (calculatePhysicalSize unitLeaf unitConfig)) \<le> aspectRatio (attrs unitLeaf)
   \<and> aspectRatio (attrs unitLeaf) \<le> maxFeasibleRatio (stats (calculatePhysicalSize unitLeaf unitConfig))
   \<and> calculatedWidth (stats (calculatePhysicalSize unitLeaf unitConfig)) = Num 49
   \<and> idealWidth (stats (calculatePhysicalSize unitLeaf unitConfig)) = Num 1"
  by (simp add: unitLeaf_def container_def unitConfig_def stats_view sizeW_view view_defs
      effectiveInternalAR_def)

text \<open>
  C4, amended. For a valid configuration and a valid node, the local logic of the node and
  of every descendant at non-negative \<open>internalX\<close> and \<open>internalY\<close>, the calculated width
  is at least the ideal width and the calculated height is at least the ideal height.
  Nothing is stated about the reported interval: a ratio inside it does not give equality
  (the counterexample), and the bounds are quotients that the program rounds.
\<close>

theorem envelope_dominance:
  assumes "validConfig config" "validNode node" "placedNode node"
  shows "idealWidth (stats (calculatePhysicalSize node config))
           \<le> calculatedWidth (stats (calculatePhysicalSize node config))
     \<and> idealHeight (stats (calculatePhysicalSize node config))
           \<le> calculatedHeight (stats (calculatePhysicalSize node config))"
proof (cases node)
  case (ModuleNode f cs)
  let ?info = "map (\<lambda>c. (c, calculatePhysicalSize c config)) cs"
  have vf: "validFields f" using assms(2) ModuleNode by simp
  have sc: "sizedChildren ?info"
    using validNode_sizedChildren[OF assms(1)] assms(2) ModuleNode by simp
  note rv = real_view[OF assms(1) vf sc]
  have "idealWidth (stats (calculatePhysicalSize node config)) = Num (idealWR f config ?info)"
    "idealHeight (stats (calculatePhysicalSize node config)) = Num (idealHR f config ?info)"
    "calculatedWidth (stats (calculatePhysicalSize node config))
       = Num (max (idealWR f config ?info) (minWR f config ?info))"
    "calculatedHeight (stats (calculatePhysicalSize node config))
       = Num (max (idealHR f config ?info) (minHR f config ?info))"
    using rv by (simp_all add: ModuleNode stats_view)
  then show ?thesis by simp
qed

theorem envelope_dominance_witness:
  "validConfig unitConfig \<and> validNode unitLeaf \<and> placedNode unitLeaf
   \<and> idealWidth (stats (calculatePhysicalSize unitLeaf unitConfig))
        \<le> calculatedWidth (stats (calculatePhysicalSize unitLeaf unitConfig))
   \<and> idealHeight (stats (calculatePhysicalSize unitLeaf unitConfig))
        \<le> calculatedHeight (stats (calculatePhysicalSize unitLeaf unitConfig))"
proof -
  have v: "validConfig unitConfig" "validNode unitLeaf"
    by (simp_all add: valid_examples unitLeaf_def)
  have p: "placedNode unitLeaf"
    by (simp add: unitLeaf_def container_def)
  show ?thesis
    using envelope_dominance [OF v p] v p by simp
qed

subsection \<open>Non-negativity and monotonicity\<close>

lemma sqrt_bounds:
  "sqrt 4033 \<le> 1096" "sqrt 4033 \<le> 1168" "sqrt 4036 \<le> 1096" "sqrt 4036 \<le> 1168"
  by (rule real_le_lsqrt; simp)+

text \<open>
  C3, as a counterexample to the claim as stated: in a container whose envelope is set by
  a child placed at (1000, 1000), raising the registers from 1 to 4 leaves the total area
  at 1096 times 1168.
\<close>

theorem more_registers_same_area:
  "registers (attrs (crowdedParent 1)) = Num 1 \<and> registers (attrs (crowdedParent 4)) = Num 4
   \<and> totalArea (stats (calculatePhysicalSize (crowdedParent 1) unitConfig)) = Num 1280128
   \<and> totalArea (stats (calculatePhysicalSize (crowdedParent 4) unitConfig)) = Num 1280128"
  by (simp add: crowdedParent_def container_def emptyLeaf_def unitConfig_def stats_view
      sizeW_view sizeH_view view_defs effectiveInternalAR_def max_def sqrt_bounds)

text \<open>
  C3, amended. For a valid configuration and a valid node, the local logic of the node and
  of every descendant at non-negative \<open>internalX\<close> and \<open>internalY\<close>, the calculated width,
  the calculated height and the total area are non-negative, and raising resource counts of
  the node, everything else fixed, never lowers the total area.
\<close>

theorem area_nonneg_and_monotone:
  assumes "validConfig config" "validNode (ModuleNode f cs)"
    and "val (registers f) \<le> r'" "val (memoryBits f) \<le> m'" "val (logicGates f) \<le> g'"
    and "placedNode (ModuleNode f cs)"
  shows "Num 0 \<le> calculatedWidth (stats (calculatePhysicalSize (ModuleNode f cs) config))
     \<and> Num 0 \<le> calculatedHeight (stats (calculatePhysicalSize (ModuleNode f cs) config))
     \<and> Num 0 \<le> totalArea (stats (calculatePhysicalSize (ModuleNode f cs) config))
     \<and> totalArea (stats (calculatePhysicalSize (ModuleNode f cs) config))
         \<le> totalArea (stats (calculatePhysicalSize
               (ModuleNode (f\<lparr> registers := Num r', memoryBits := Num m', logicGates := Num g' \<rparr>) cs)
               config))"
proof -
  let ?info = "map (\<lambda>c. (c, calculatePhysicalSize c config)) cs"
  let ?f' = "f\<lparr> registers := Num r', memoryBits := Num m', logicGates := Num g' \<rparr>"
  have vf: "validFields f" using assms(2) by simp
  have cnt: "0 \<le> val (registers f)" "0 \<le> val (memoryBits f)" "0 \<le> val (logicGates f)"
    using vf by (simp_all add: validFields_def finiteNonneg_def)
  have vf': "validFields ?f'"
    using vf assms(3-5) cnt by (simp add: validFields_def finiteNonneg_def)
  have sc: "sizedChildren ?info" by (rule validNode_sizedChildren[OF assms(1,2)])
  note rv = real_view[OF assms(1) vf sc] and rv' = real_view[OF assms(1) vf' sc]
  have cfg: "0 \<le> val (dffArea config)" "0 \<le> val (sramAreaPerBit config)"
    "0 \<le> val (gateArea config)" "0 < val (utilization config)"
    using assms(1) by (simp_all add: validConfig_def finiteNonneg_def finitePos_def)
  have r: "0 < val (aspectRatio f)" using vf by (simp add: validFields_def finitePos_def)
  have e: "0 < val (effectiveInternalAR f)" by (rule effectiveInternalAR_valid(2)[OF vf])
  have e': "effectiveInternalAR ?f' = effectiveInternalAR f" by (simp add: effectiveInternalAR_def)
  have "val (registers f) * val (dffArea config) + val (memoryBits f) * val (sramAreaPerBit config)
          + val (logicGates f) * val (gateArea config)
        \<le> r' * val (dffArea config) + m' * val (sramAreaPerBit config) + g' * val (gateArea config)"
    using assms(3-5) cfg by (intro add_mono mult_right_mono) auto
  then have la: "localAreaR f config \<le> localAreaR ?f' config"
    using cfg(4) by (simp add: localAreaR_def divide_right_mono)
  have A: "contentAreaR f config ?info \<le> contentAreaR ?f' config ?info"
    using la by (simp add: contentAreaR_def)
  have ih: "idealHR f config ?info \<le> idealHR ?f' config ?info"
    using A r by (simp add: idealHR_def divide_right_mono)
  have iw: "idealWR f config ?info \<le> idealWR ?f' config ?info"
    using ih r by (simp add: idealWR_def)
  have lh: "localHR f config \<le> localHR ?f' config"
    using la e by (simp add: localHR_def e' divide_right_mono)
  have lw: "localWR f config \<le> localWR ?f' config"
    using lh e by (simp add: localWR_def e')
  have wm: "minWR f config ?info \<le> minWR ?f' config ?info"
    using lw by (simp add: minWR_def maxXR_mono)
  have hm: "minHR f config ?info \<le> minHR ?f' config ?info"
    using lh by (simp add: minHR_def maxYR_mono)
  define W H W' H' where "W = max (idealWR f config ?info) (minWR f config ?info)"
    and "H = max (idealHR f config ?info) (minHR f config ?info)"
    and "W' = max (idealWR ?f' config ?info) (minWR ?f' config ?info)"
    and "H' = max (idealHR ?f' config ?info) (minHR ?f' config ?info)"
  have W0: "0 \<le> W" "0 \<le> H"
    using idealR_nonneg[OF assms(1) vf sc] by (simp_all add: W_def H_def max.coboundedI1)
  have WW: "W \<le> W'" "H \<le> H'"
    unfolding W_def H_def W'_def H'_def
    using iw wm ih hm by (auto intro: max.mono)
  have st: "sizeW (sizeFromChildren f config ?info) = Num W" "sizeH (sizeFromChildren f config ?info) = Num H"
    "sizeW (sizeFromChildren ?f' config ?info) = Num W'" "sizeH (sizeFromChildren ?f' config ?info) = Num H'"
    using rv(9,10) rv'(9,10) by (simp_all add: W_def H_def W'_def H'_def)
  have "W * H \<le> W' * H'" using W0 WW by (intro mult_mono) auto
  then show ?thesis
    using W0 by (simp add: stats_view st)
qed

theorem area_nonneg_and_monotone_witness:
  "validConfig unitConfig \<and> validNode (crowdedParent 1) \<and> placedNode (crowdedParent 1)
   \<and> val (registers (attrs (crowdedParent 1))) \<le> 4
   \<and> Num 0 \<le> totalArea (stats (calculatePhysicalSize (crowdedParent 1) unitConfig))
   \<and> totalArea (stats (calculatePhysicalSize (crowdedParent 1) unitConfig))
        \<le> totalArea (stats (calculatePhysicalSize (crowdedParent 4) unitConfig))"
proof -
  have v: "validConfig unitConfig" "validNode (crowdedParent 1)"
    by (simp_all add: valid_examples crowdedParent_def)
  have v2: "validNode (ModuleNode (attrs (crowdedParent 1)) (children (crowdedParent 1)))"
    using v(2) by simp
  have n: "ModuleNode ((attrs (crowdedParent 1))\<lparr> registers := Num 4, memoryBits := Num 0,
              logicGates := Num 0 \<rparr>) (children (crowdedParent 1)) = crowdedParent 4"
    by (simp add: crowdedParent_def container_def)
  have le: "val (registers (attrs (crowdedParent 1))) \<le> 4"
    "val (memoryBits (attrs (crowdedParent 1))) \<le> 0"
    "val (logicGates (attrs (crowdedParent 1))) \<le> 0"
    by (simp_all add: crowdedParent_def container_def)
  have pl: "placedNode (crowdedParent 1)"
    by (simp add: crowdedParent_def container_def emptyLeaf_def)
  then have pl2: "placedNode (ModuleNode (attrs (crowdedParent 1)) (children (crowdedParent 1)))"
    by simp
  from area_nonneg_and_monotone [OF v(1) v2 le pl2]
  show ?thesis using v pl le(1) by (simp add: n)
qed

subsection \<open>Compactor: what the sweeps keep and what they assign\<close>

lemma set_insertBy: "set (insertBy cmp a xs) = insert a (set xs)"
  by (induction xs) auto

lemma set_sortBy: "set (sortBy cmp xs) = set xs"
  unfolding sortBy_def by (induction xs) (simp_all add: set_insertBy)

lemma nonneg_cases: "nonneg v \<longleftrightarrow> v = PosInf \<or> (\<exists>r. v = Num r \<and> 0 \<le> r)"
  by (cases v) (simp_all add: nonneg_def)

lemma nonneg_add: "nonneg a \<Longrightarrow> nonneg b \<Longrightarrow> nonneg (a + b)"
  by (auto simp: nonneg_cases)

lemma nonneg_max: "nonneg a \<Longrightarrow> nonneg b \<Longrightarrow> nonneg (Math_max a b)"
  by (auto simp: nonneg_cases Math_max_def)

lemma nonneg_bestY:
  assumes "\<forall>p \<in> set before. nonneg (entY p) \<and> nonneg (entH p)"
  shows "nonneg (bestY before entity)"
proof -
  have "nonneg b \<Longrightarrow> \<forall>p \<in> set os. nonneg (entY p) \<and> nonneg (entH p) \<Longrightarrow>
     nonneg (fold (\<lambda>other best.
             if spanOverlapX entity other > Num 1
             then Math_max best (entY other + entH other + INTER_MODULE_GAP) else best) os b)" for os b
  proof (induction os arbitrary: b)
    case (Cons p os)
    have "nonneg (entY p + entH p + INTER_MODULE_GAP)"
      using Cons.prems(2) by (intro nonneg_add) (simp_all add: nonneg_def)
    then show ?case using Cons by (simp add: nonneg_max)
  qed simp
  then show ?thesis using assms unfolding bestY_def by (simp add: nonneg_def)
qed

lemma nonneg_bestX:
  assumes "\<forall>p \<in> set before. nonneg (entX p) \<and> nonneg (entW p)"
  shows "nonneg (bestX before entity)"
proof -
  have "nonneg b \<Longrightarrow> \<forall>p \<in> set os. nonneg (entX p) \<and> nonneg (entW p) \<Longrightarrow>
     nonneg (fold (\<lambda>other best.
             if spanOverlapY entity other > Num 1
             then Math_max best (entX other + entW other + INTER_MODULE_GAP) else best) os b)" for os b
  proof (induction os arbitrary: b)
    case (Cons p os)
    have "nonneg (entX p + entW p + INTER_MODULE_GAP)"
      using Cons.prems(2) by (intro nonneg_add) (simp_all add: nonneg_def)
    then show ?case using Cons by (simp add: nonneg_max)
  qed simp
  then show ?thesis using assms unfolding bestX_def by (simp add: nonneg_def)
qed

text \<open>A sweep changes nothing but the coordinate it assigns, and keeps the order.\<close>

lemma sweepY_keeps:
  "map (\<lambda>e. e\<lparr> entY := Num 0 \<rparr>) (sweepY before rest) = map (\<lambda>e. e\<lparr> entY := Num 0 \<rparr>) (before @ rest)"
  by (induction before rest rule: sweepY.induct) simp_all

lemma sweepX_keeps:
  "map (\<lambda>e. e\<lparr> entX := Num 0 \<rparr>) (sweepX before rest) = map (\<lambda>e. e\<lparr> entX := Num 0 \<rparr>) (before @ rest)"
  by (induction before rest rule: sweepX.induct) simp_all

lemma sweepY_fields:
  "map origin (sweepY before rest) = map origin (before @ rest)"
  "map entX (sweepY before rest) = map entX (before @ rest)"
  "map entW (sweepY before rest) = map entW (before @ rest)"
  "map entH (sweepY before rest) = map entH (before @ rest)"
  using arg_cong[OF sweepY_keeps[of before rest], of "map origin"]
    arg_cong[OF sweepY_keeps[of before rest], of "map entX"]
    arg_cong[OF sweepY_keeps[of before rest], of "map entW"]
    arg_cong[OF sweepY_keeps[of before rest], of "map entH"]
  by (simp_all add: comp_def)

lemma sweepX_fields:
  "map origin (sweepX before rest) = map origin (before @ rest)"
  "map entY (sweepX before rest) = map entY (before @ rest)"
  "map entW (sweepX before rest) = map entW (before @ rest)"
  "map entH (sweepX before rest) = map entH (before @ rest)"
  using arg_cong[OF sweepX_keeps[of before rest], of "map origin"]
    arg_cong[OF sweepX_keeps[of before rest], of "map entY"]
    arg_cong[OF sweepX_keeps[of before rest], of "map entW"]
    arg_cong[OF sweepX_keeps[of before rest], of "map entH"]
  by (simp_all add: comp_def)

lemma all_by_field:
  "map g xs = map g ys \<Longrightarrow> (\<forall>e \<in> set xs. P (g e)) \<longleftrightarrow> (\<forall>e \<in> set ys. P (g e))"
proof -
  assume "map g xs = map g ys"
  then have "g ` set xs = g ` set ys" by (metis set_map)
  then show ?thesis by (metis (no_types, lifting) image_iff)
qed

lemma sweepY_nonneg:
  assumes "\<forall>e \<in> set before. nonneg (entY e) \<and> nonneg (entH e)" "\<forall>e \<in> set rest. nonneg (entH e)"
  shows "\<forall>e \<in> set (sweepY before rest). nonneg (entY e)"
  using assms
proof (induction before rest rule: sweepY.induct)
  case (2 before entity rest)
  have "nonneg (bestY before entity)" using 2(2) by (rule nonneg_bestY)
  then show ?case using 2 by simp
qed simp

lemma sweepX_nonneg:
  assumes "\<forall>e \<in> set before. nonneg (entX e) \<and> nonneg (entW e)" "\<forall>e \<in> set rest. nonneg (entW e)"
  shows "\<forall>e \<in> set (sweepX before rest). nonneg (entX e)"
  using assms
proof (induction before rest rule: sweepX.induct)
  case (2 before entity rest)
  have "nonneg (bestX before entity)" using 2(2) by (rule nonneg_bestX)
  then show ?case using 2 by simp
qed simp

lemma compactEntities_nonneg:
  assumes "\<forall>e \<in> set es. nonneg (entW e) \<and> nonneg (entH e)"
  shows "\<forall>e \<in> set (compactEntities es). nonneg (entX e) \<and> nonneg (entY e)"
proof -
  let ?s1 = "sortBy compareYX es"
  let ?p1 = "sweepY [] ?s1"
  let ?s2 = "sortBy compareXY ?p1"
  have s1: "\<forall>e \<in> set ?s1. nonneg (entW e)" "\<forall>e \<in> set ?s1. nonneg (entH e)"
    using assms by (simp_all add: set_sortBy)
  have p1y: "\<forall>e \<in> set ?p1. nonneg (entY e)"
    using s1 by (intro sweepY_nonneg) simp_all
  have p1w: "\<forall>e \<in> set ?p1. nonneg (entW e)"
    using s1(1) all_by_field[OF sweepY_fields(3)[of "[]" ?s1], of nonneg] by simp
  have s2: "\<forall>e \<in> set ?s2. nonneg (entW e)" "\<forall>e \<in> set ?s2. nonneg (entY e)"
    using p1y p1w by (simp_all add: set_sortBy)
  have x: "\<forall>e \<in> set (sweepX [] ?s2). nonneg (entX e)"
    using s2 by (intro sweepX_nonneg) simp_all
  have y: "\<forall>e \<in> set (sweepX [] ?s2). nonneg (entY e)"
    using s2(2) all_by_field[OF sweepX_fields(2)[of "[]" ?s2], of nonneg] by simp
  show ?thesis using x y by (simp add: compactEntities_def)
qed

lemmas eval_defs = container_def emptyLeaf_def unitConfig_def sizeW_view sizeH_view stats_view
  view_defs effectiveInternalAR_def

subsection \<open>Compactor: the result has non-negative coordinates\<close>

lemma compactEntities_origins:
  "set (map origin (compactEntities es)) = set (map origin es)"
proof -
  have "set (map origin (compactEntities es))
      = origin ` set (sortBy compareXY (sweepY [] (sortBy compareYX es)))"
    using arg_cong[OF sweepX_fields(1)[of "[]" "sortBy compareXY (sweepY [] (sortBy compareYX es))"], of set]
    by (simp add: compactEntities_def)
  also have "\<dots> = set (map origin (sweepY [] (sortBy compareYX es)))"
    by (simp add: set_sortBy)
  also have "\<dots> = origin ` set (sortBy compareYX es)"
    using arg_cong[OF sweepY_fields(1)[of "[]" "sortBy compareYX es"], of set] by simp
  finally show ?thesis by (simp add: set_sortBy)
qed

lemma moduleEntities_has_local: "\<exists>e \<in> set (moduleEntities node config). isLocal e"
  by (simp add: moduleEntities_def Let_def isLocal_def)

lemma compactEntities_has_local:
  "\<exists>l. find isLocal (compactEntities (moduleEntities node config)) = Some l"
proof -
  have "LocalLogic \<in> set (map origin (moduleEntities node config))"
    by (simp add: moduleEntities_def Let_def)
  then have "LocalLogic \<in> set (map origin (compactEntities (moduleEntities node config)))"
    by (simp only: compactEntities_origins)
  then obtain e where "e \<in> set (compactEntities (moduleEntities node config))" "isLocal e"
    by (auto simp: isLocal_def)
  then have "find isLocal (compactEntities (moduleEntities node config)) \<noteq> None"
    by (auto simp: find_None_iff)
  then show ?thesis by auto
qed

lemma updatedChildrenOf_coords:
  "c \<in> set (updatedChildrenOf es) \<Longrightarrow>
     \<exists>e \<in> set es. nodeX (attrs c) = entX e \<and> nodeY (attrs c) = entY e"
  by (induction es) (auto split: EntityOrigin.splits)

text \<open>
  C10. When the width and the height of every entity of a node (its local-logic block and
  its direct children, as sized by the calculator) are non-negative, the Compactor returns
  a node, its \<open>internalX\<close> and \<open>internalY\<close> are non-negative, and so are \<open>x\<close> and \<open>y\<close> of
  every direct child.
\<close>

theorem compacted_coordinates_nonneg:
  assumes "\<forall>e \<in> set (moduleEntities node config). Num 0 \<le> entW e \<and> Num 0 \<le> entH e"
  shows "\<exists>n'. organizeChildrenMosaic node config = Inr n'
     \<and> Num 0 \<le> internalX (attrs n') \<and> Num 0 \<le> internalY (attrs n')
     \<and> (\<forall>c \<in> set (children n'). Num 0 \<le> nodeX (attrs c) \<and> Num 0 \<le> nodeY (attrs c))"
proof (cases "children node = []")
  case True
  then show ?thesis by (simp add: organizeChildrenMosaic_def)
next
  case False
  let ?es = "compactEntities (moduleEntities node config)"
  obtain l where l: "find isLocal ?es = Some l"
    using compactEntities_has_local by blast
  have nn: "\<forall>e \<in> set ?es. nonneg (entX e) \<and> nonneg (entY e)"
    using assms by (intro compactEntities_nonneg) (simp add: nonneg_def)
  have "l \<in> set ?es" using l by (auto simp: find_Some_iff)
  then have lx: "Num 0 \<le> entX l" "Num 0 \<le> entY l" using nn by (auto simp: nonneg_def)
  have cs: "\<forall>c \<in> set (updatedChildrenOf ?es). Num 0 \<le> nodeX (attrs c) \<and> Num 0 \<le> nodeY (attrs c)"
    using updatedChildrenOf_coords[of _ ?es] nn by (fastforce simp: nonneg_def)
  show ?thesis
    using False l lx cs by (simp add: organizeChildrenMosaic_def Let_def)
qed

subsection \<open>Compactor: two nodes, compacted by hand\<close>

lemma sliding_entities:
  "moduleEntities slidingChildren unitConfig =
    [\<lparr> origin = LocalLogic, entId = ''internal'', entX = Num 0, entY = Num 0, entW = Num 0, entH = Num 0 \<rparr>,
     \<lparr> origin = Original (emptyLeaf ''a'' 0 0 52 (33 / 2)), entId = ''a'', entX = Num 0, entY = Num 0, entW = Num 100, entH = Num (201 / 2) \<rparr>,
     \<lparr> origin = Original (emptyLeaf ''b'' 200 0 52 0), entId = ''b'', entX = Num 200, entY = Num 0, entW = Num 100, entH = Num 84 \<rparr>,
     \<lparr> origin = Original (emptyLeaf ''c'' 200 100 52 16), entId = ''c'', entX = Num 200, entY = Num 100, entW = Num 100, entH = Num 100 \<rparr>]"
  by (simp add: slidingChildren_def moduleEntities_def eval_defs Let_def)

lemma sliding_compact:
  "compactEntities (moduleEntities slidingChildren unitConfig)
   = [\<lparr> origin = LocalLogic, entId = ''internal'', entX = Num 0, entY = Num 0, entW = Num 0, entH = Num 0 \<rparr>,
     \<lparr> origin = Original (emptyLeaf ''a'' 0 0 52 (33 / 2)), entId = ''a'', entX = Num 0, entY = Num 0, entW = Num 100, entH = Num (201 / 2) \<rparr>,
     \<lparr> origin = Original (emptyLeaf ''b'' 200 0 52 0), entId = ''b'', entX = Num 116, entY = Num 0, entW = Num 100, entH = Num 84 \<rparr>,
     \<lparr> origin = Original (emptyLeaf ''c'' 200 100 52 16), entId = ''c'', entX = Num 0, entY = Num 100, entW = Num 100, entH = Num 100 \<rparr>]"
  unfolding sliding_entities
  by (simp add: compactEntities_def sortBy_def compareYX_def compareXY_def bestX_def bestY_def
      spanOverlapX_def spanOverlapY_def)

lemma sliding_result:
  "organizeChildrenMosaic slidingChildren unitConfig =
     Inr (compacted (93 / 100)
            [emptyLeaf ''a'' 0 0 52 (33 / 2), emptyLeaf ''b'' 116 0 52 0, emptyLeaf ''c'' 0 100 52 16])"
  unfolding organizeChildrenMosaic_def sliding_compact
  by (simp add: slidingChildren_def compacted_def isLocal_def eval_defs)

lemma sliding_before:
  "checkOverlapsInModule slidingChildren unitConfig = []"
  by (simp add: checkOverlapsInModule_def slidingChildren_def moduleBlocks_def eval_defs Let_def
      xOverlap_def yOverlap_def markerOf_def)

lemma sliding_after:
  "checkOverlapsInModule (compacted (93 / 100)
            [emptyLeaf ''a'' 0 0 52 (33 / 2), emptyLeaf ''b'' 116 0 52 0, emptyLeaf ''c'' 0 100 52 16]) unitConfig
    = [\<lparr> markerX = Num 0, markerY = Num 100, markerW = Num 100, markerH = Num (1 / 2),
           ids = (''a'', ''c'') \<rparr>]"
  by (simp add: checkOverlapsInModule_def compacted_def moduleBlocks_def eval_defs Let_def
      xOverlap_def yOverlap_def markerOf_def)

lemma shifting_entities:
  "moduleEntities shiftingChildren unitConfig =
    [\<lparr> origin = LocalLogic, entId = ''internal'', entX = Num 0, entY = Num 0, entW = Num 0, entH = Num 0 \<rparr>,
     \<lparr> origin = Original (emptyLeaf ''f'' 100 0 52 16), entId = ''f'', entX = Num 100, entY = Num 0, entW = Num 100, entH = Num 100 \<rparr>,
     \<lparr> origin = Original (emptyLeaf ''e'' 150 110 52 16), entId = ''e'', entX = Num 150, entY = Num 110, entW = Num 100, entH = Num 100 \<rparr>,
     \<lparr> origin = Original (emptyLeaf ''g'' 0 120 72 16), entId = ''g'', entX = Num 0, entY = Num 120, entW = Num 120, entH = Num 100 \<rparr>]"
  by (simp add: shiftingChildren_def moduleEntities_def eval_defs Let_def)

lemma shifting_compact:
  "compactEntities (moduleEntities shiftingChildren unitConfig)
   = [\<lparr> origin = LocalLogic, entId = ''internal'', entX = Num 0, entY = Num 0, entW = Num 0, entH = Num 0 \<rparr>,
     \<lparr> origin = Original (emptyLeaf ''g'' 0 120 72 16), entId = ''g'', entX = Num 0, entY = Num 116, entW = Num 120, entH = Num 100 \<rparr>,
     \<lparr> origin = Original (emptyLeaf ''f'' 100 0 52 16), entId = ''f'', entX = Num 0, entY = Num 0, entW = Num 100, entH = Num 100 \<rparr>,
     \<lparr> origin = Original (emptyLeaf ''e'' 150 110 52 16), entId = ''e'', entX = Num 136, entY = Num 116, entW = Num 100, entH = Num 100 \<rparr>]"
  unfolding shifting_entities
  by (simp add: compactEntities_def sortBy_def compareYX_def compareXY_def bestX_def bestY_def
      spanOverlapX_def spanOverlapY_def)

lemma shifting_once:
  "organizeChildrenMosaic shiftingChildren unitConfig =
     Inr (compacted (95 / 100)
            [emptyLeaf ''g'' 0 116 72 16, emptyLeaf ''f'' 0 0 52 16, emptyLeaf ''e'' 136 116 52 16])"
  unfolding organizeChildrenMosaic_def shifting_compact
  by (simp add: shiftingChildren_def compacted_def isLocal_def eval_defs)

lemma shifted_entities:
  "moduleEntities (compacted (95 / 100)
            [emptyLeaf ''g'' 0 116 72 16, emptyLeaf ''f'' 0 0 52 16, emptyLeaf ''e'' 136 116 52 16]) unitConfig =
    [\<lparr> origin = LocalLogic, entId = ''internal'', entX = Num 0, entY = Num 0, entW = Num 0, entH = Num 0 \<rparr>,
     \<lparr> origin = Original (emptyLeaf ''g'' 0 116 72 16), entId = ''g'', entX = Num 0, entY = Num 116, entW = Num 120, entH = Num 100 \<rparr>,
     \<lparr> origin = Original (emptyLeaf ''f'' 0 0 52 16), entId = ''f'', entX = Num 0, entY = Num 0, entW = Num 100, entH = Num 100 \<rparr>,
     \<lparr> origin = Original (emptyLeaf ''e'' 136 116 52 16), entId = ''e'', entX = Num 136, entY = Num 116, entW = Num 100, entH = Num 100 \<rparr>]"
  by (simp add: compacted_def moduleEntities_def eval_defs Let_def)

lemma shifted_compact:
  "compactEntities (moduleEntities (compacted (95 / 100)
            [emptyLeaf ''g'' 0 116 72 16, emptyLeaf ''f'' 0 0 52 16, emptyLeaf ''e'' 136 116 52 16]) unitConfig)
   = [\<lparr> origin = LocalLogic, entId = ''internal'', entX = Num 0, entY = Num 0, entW = Num 0, entH = Num 0 \<rparr>,
     \<lparr> origin = Original (emptyLeaf ''f'' 0 0 52 16), entId = ''f'', entX = Num 0, entY = Num 0, entW = Num 100, entH = Num 100 \<rparr>,
     \<lparr> origin = Original (emptyLeaf ''g'' 0 116 72 16), entId = ''g'', entX = Num 0, entY = Num 116, entW = Num 120, entH = Num 100 \<rparr>,
     \<lparr> origin = Original (emptyLeaf ''e'' 136 116 52 16), entId = ''e'', entX = Num 116, entY = Num 0, entW = Num 100, entH = Num 100 \<rparr>]"
  unfolding shifted_entities
  by (simp add: compactEntities_def sortBy_def compareYX_def compareXY_def bestX_def bestY_def
      spanOverlapX_def spanOverlapY_def)

lemma shifting_twice:
  "organizeChildrenMosaic (compacted (95 / 100)
            [emptyLeaf ''g'' 0 116 72 16, emptyLeaf ''f'' 0 0 52 16, emptyLeaf ''e'' 136 116 52 16]) unitConfig =
     Inr (compacted (88 / 100)
            [emptyLeaf ''f'' 0 0 52 16, emptyLeaf ''g'' 0 116 72 16, emptyLeaf ''e'' 116 0 52 16])"
  unfolding organizeChildrenMosaic_def shifted_compact
  by (simp add: compacted_def isLocal_def eval_defs)

lemma shifting_before:
  "checkOverlapsInModule shiftingChildren unitConfig = []"
  by (simp add: checkOverlapsInModule_def shiftingChildren_def moduleBlocks_def eval_defs Let_def
      xOverlap_def yOverlap_def markerOf_def)

theorem compacted_coordinates_nonneg_witness:
  "\<exists>n'. organizeChildrenMosaic slidingChildren unitConfig = Inr n'
     \<and> Num 0 \<le> internalX (attrs n') \<and> Num 0 \<le> internalY (attrs n')
     \<and> (\<forall>c \<in> set (children n'). Num 0 \<le> nodeX (attrs c) \<and> Num 0 \<le> nodeY (attrs c))"
proof -
  have h: "\<forall>e \<in> set (moduleEntities slidingChildren unitConfig). Num 0 \<le> entW e \<and> Num 0 \<le> entH e"
    unfolding sliding_entities by simp
  show ?thesis by (rule compacted_coordinates_nonneg [OF h])
qed

subsection \<open>Compactor: overlaps that remain\<close>

text \<open>
  C1, as a counterexample to the claim as stated: three children without any overlap are
  compacted to (0, 0), (116, 0) and (0, 100); the first is 100.5 high, so the detector
  reports the overlap of the first and the third, 100 wide and 0.5 high.
\<close>

theorem compaction_leaves_overlap:
  "children slidingChildren \<noteq> []
   \<and> checkOverlapsInModule slidingChildren unitConfig = []
   \<and> organizeChildrenMosaic slidingChildren unitConfig =
       Inr (compacted (93 / 100)
              [emptyLeaf ''a'' 0 0 52 (33 / 2), emptyLeaf ''b'' 116 0 52 0,
               emptyLeaf ''c'' 0 100 52 16])
   \<and> checkOverlapsInModule
         (compacted (93 / 100)
            [emptyLeaf ''a'' 0 0 52 (33 / 2), emptyLeaf ''b'' 116 0 52 0,
             emptyLeaf ''c'' 0 100 52 16]) unitConfig
       = [\<lparr> markerX = Num 0, markerY = Num 100, markerW = Num 100, markerH = Num (1 / 2),
            ids = (''a'', ''c'') \<rparr>]"
  using sliding_before sliding_result sliding_after
  by (simp add: slidingChildren_def container_def)

subsection \<open>Compactor: applying it twice\<close>

text \<open>
  C5, as a counterexample to the claim as stated: three children without any overlap are
  compacted to (0, 116), (0, 0) and (136, 116); compacting the result again moves the third
  to (116, 0), reorders the children and changes the ratio from 0.95 to 0.88.
\<close>

theorem second_compaction_moves:
  "checkOverlapsInModule shiftingChildren unitConfig = []
   \<and> organizeChildrenMosaic shiftingChildren unitConfig =
       Inr (compacted (95 / 100)
              [emptyLeaf ''g'' 0 116 72 16, emptyLeaf ''f'' 0 0 52 16,
               emptyLeaf ''e'' 136 116 52 16])
   \<and> organizeChildrenMosaic
         (compacted (95 / 100)
            [emptyLeaf ''g'' 0 116 72 16, emptyLeaf ''f'' 0 0 52 16,
             emptyLeaf ''e'' 136 116 52 16]) unitConfig =
       Inr (compacted (88 / 100)
              [emptyLeaf ''f'' 0 0 52 16, emptyLeaf ''g'' 0 116 72 16,
               emptyLeaf ''e'' 116 0 52 16])
   \<and> compacted (88 / 100)
        [emptyLeaf ''f'' 0 0 52 16, emptyLeaf ''g'' 0 116 72 16, emptyLeaf ''e'' 116 0 52 16]
      \<noteq> compacted (95 / 100)
          [emptyLeaf ''g'' 0 116 72 16, emptyLeaf ''f'' 0 0 52 16, emptyLeaf ''e'' 136 116 52 16]"
  using shifting_before shifting_once shifting_twice
  by (simp add: compacted_def)

text \<open>
  C5, amended. On a node without children the Compactor is idempotent: it returns the
  node with \<open>internalX\<close> and \<open>internalY\<close> reset to 0, and applied to that result it returns
  the same node again.
\<close>

theorem childless_compaction_idempotent:
  "children node = [] \<Longrightarrow>
     organizeChildrenMosaic node config
       = Inr (ModuleNode ((attrs node)\<lparr> internalX := Num 0, internalY := Num 0 \<rparr>) [])
     \<and> organizeChildrenMosaic
           (ModuleNode ((attrs node)\<lparr> internalX := Num 0, internalY := Num 0 \<rparr>) []) config
       = Inr (ModuleNode ((attrs node)\<lparr> internalX := Num 0, internalY := Num 0 \<rparr>) [])"
  by (simp add: organizeChildrenMosaic_def)

theorem childless_compaction_idempotent_witness:
  "children (emptyLeaf ''z'' 3 4 5 6) = []
   \<and> organizeChildrenMosaic (emptyLeaf ''z'' 3 4 5 6) unitConfig = Inr (emptyLeaf ''z'' 3 4 0 0)
   \<and> organizeChildrenMosaic (emptyLeaf ''z'' 3 4 0 0) unitConfig = Inr (emptyLeaf ''z'' 3 4 0 0)"
proof -
  have h: "children (emptyLeaf ''z'' 3 4 5 6) = []"
    by (simp add: emptyLeaf_def)
  have r: "ModuleNode ((attrs (emptyLeaf ''z'' 3 4 5 6))\<lparr> internalX := Num 0, internalY := Num 0 \<rparr>) []
      = emptyLeaf ''z'' 3 4 0 0"
    by (simp add: emptyLeaf_def)
  show ?thesis
    using childless_compaction_idempotent [OF h, of unitConfig] h unfolding r by simp
qed

subsection \<open>Compactor: what the horizontal sweep separates\<close>

lemma fold_best_finite:
  fixes cond :: "Entity \<Rightarrow> bool" and cand :: "Entity \<Rightarrow> jsnum"
  assumes "\<forall>p \<in> set ps. isNum (cand p)"
  shows "\<exists>r. fold (\<lambda>other best. if cond other then Math_max best (cand other) else best) ps (Num b) = Num r
     \<and> b \<le> r \<and> (\<forall>p \<in> set ps. cond p \<longrightarrow> val (cand p) \<le> r)"
  using assms
proof (induction ps arbitrary: b)
  case Nil
  then show ?case by simp
next
  case (Cons p ps)
  obtain c where c: "cand p = Num c" using Cons.prems by (auto simp: isNum_iff)
  have rest: "\<forall>p \<in> set ps. isNum (cand p)" using Cons.prems by simp
  show ?case
  proof (cases "cond p")
    case True
    from Cons.IH[OF rest, of "max b c"] obtain r where
      r: "fold (\<lambda>other best. if cond other then Math_max best (cand other) else best) ps (Num (max b c)) = Num r"
      "max b c \<le> r" "\<forall>p \<in> set ps. cond p \<longrightarrow> val (cand p) \<le> r" by blast
    then show ?thesis using True c by auto
  next
    case False
    from Cons.IH[OF rest, of b] show ?thesis using False by auto
  qed
qed

lemma finite_candidate:
  "finiteEntity p \<Longrightarrow> isNum (entX p + entW p + INTER_MODULE_GAP) \<and> isNum (entY p + entH p + INTER_MODULE_GAP)"
  by (auto simp: finiteEntity_def isNum_iff)

lemma bestX_bound:
  assumes "\<forall>p \<in> set before. finiteEntity p"
  shows "\<exists>r. bestX before e = Num r
     \<and> (\<forall>p \<in> set before. spanOverlapY e p > Num 1 \<longrightarrow> val (entX p + entW p + INTER_MODULE_GAP) \<le> r)"
proof -
  have "\<forall>p \<in> set before. isNum (entX p + entW p + INTER_MODULE_GAP)"
    using assms finite_candidate by blast
  from fold_best_finite[OF this, of "\<lambda>p. spanOverlapY e p > Num 1" 0]
  show ?thesis unfolding bestX_def by blast
qed

lemma bestY_finite:
  assumes "\<forall>p \<in> set before. finiteEntity p"
  shows "isNum (bestY before e)"
proof -
  have "\<forall>p \<in> set before. isNum (entY p + entH p + INTER_MODULE_GAP)"
    using assms finite_candidate by blast
  from fold_best_finite[OF this, of "\<lambda>p. spanOverlapX e p > Num 1" 0]
  show ?thesis unfolding bestY_def by (auto simp: isNum_iff)
qed

lemma sweepY_finite:
  assumes "\<forall>e \<in> set before. finiteEntity e" "\<forall>e \<in> set rest. finiteEntity e"
  shows "\<forall>e \<in> set (sweepY before rest). finiteEntity e"
  using assms
proof (induction before rest rule: sweepY.induct)
  case (1 before)
  then show ?case by simp
next
  case (2 before entity rest)
  let ?e = "entity\<lparr> entY := bestY before entity \<rparr>"
  have ent: "finiteEntity entity" using 2(3) by simp
  have "isNum (bestY before entity)" by (rule bestY_finite[OF 2(2)])
  then have "finiteEntity ?e" using ent by (simp add: finiteEntity_def)
  then have a: "\<forall>e \<in> set (before @ [?e]). finiteEntity e" using 2(2) by simp
  have b: "\<forall>e \<in> set rest. finiteEntity e" using 2(3) by simp
  show ?case using 2(1)[OF a b] by simp
qed

lemma sweepX_separates:
  assumes "\<forall>e \<in> set before. finiteEntity e" "\<forall>e \<in> set rest. finiteEntity e"
    and "sorted_wrt placedClear before"
  shows "sorted_wrt placedClear (sweepX before rest) \<and> (\<forall>e \<in> set (sweepX before rest). finiteEntity e)"
  using assms
proof (induction before rest rule: sweepX.induct)
  case (1 before)
  then show ?case by simp
next
  case (2 before entity rest)
  let ?e = "entity\<lparr> entX := bestX before entity \<rparr>"
  obtain r where r: "bestX before entity = Num r"
    "\<forall>p \<in> set before. spanOverlapY entity p > Num 1 \<longrightarrow> val (entX p + entW p + INTER_MODULE_GAP) \<le> r"
    using bestX_bound[OF 2(2), of entity] by blast
  have ent: "finiteEntity entity" using 2(3) by simp
  have fin: "finiteEntity ?e" using r(1) ent by (simp add: finiteEntity_def)
  have clear: "placedClear p ?e" if p: "p \<in> set before" for p
  proof -
    have "isNum (entX p + entW p + INTER_MODULE_GAP)" using 2(2) p finite_candidate by blast
    then obtain c where c: "entX p + entW p + Num 16 = Num c" by (auto simp: isNum_iff)
    have same: "spanOverlapY ?e p = spanOverlapY entity p" by (simp add: spanOverlapY_def)
    show ?thesis
      unfolding placedClear_def same
    proof
      assume "Num 1 < spanOverlapY entity p"
      then have "val (entX p + entW p + INTER_MODULE_GAP) \<le> r" using r(2) p by blast
      then show "entX p + entW p + INTER_MODULE_GAP \<le> entX ?e" by (simp add: c r(1))
    qed
  qed
  have a: "\<forall>e \<in> set (before @ [?e]). finiteEntity e" using 2(2) fin by simp
  have b: "\<forall>e \<in> set rest. finiteEntity e" using 2(3) by simp
  have c: "sorted_wrt placedClear (before @ [?e])"
    using 2(4) clear by (simp add: sorted_wrt_append)
  show ?case using 2(1)[OF a b c] by simp
qed

lemma compactEntities_separated:
  assumes "\<forall>e \<in> set es. finiteEntity e"
  shows "sorted_wrt placedClear (compactEntities es)" "\<forall>e \<in> set (compactEntities es). finiteEntity e"
proof -
  have "\<forall>e \<in> set (sweepY [] (sortBy compareYX es)). finiteEntity e"
    using assms by (intro sweepY_finite) (simp_all add: set_sortBy)
  then have "\<forall>e \<in> set (sortBy compareXY (sweepY [] (sortBy compareYX es))). finiteEntity e"
    by (simp add: set_sortBy)
  from sweepX_separates[OF _ this, of "[]"]
  show "sorted_wrt placedClear (compactEntities es)" "\<forall>e \<in> set (compactEntities es). finiteEntity e"
    by (simp_all add: compactEntities_def)
qed

lemma span_low:
  fixes ax aw bx bw ay ah by' bh :: real
  assumes "1 < min (ay + ah) (by' + bh) - max ay by' \<longrightarrow> ax + aw + 16 \<le> bx \<or> bx + bw + 16 \<le> ax"
    and "0 < max 0 (min (ax + aw) (bx + bw) - max ax bx)"
  shows "max 0 (min (ay + ah) (by' + bh) - max ay by') \<le> 1"
proof (rule ccontr)
  assume "\<not> ?thesis"
  then have "1 < min (ay + ah) (by' + bh) - max ay by'" by (simp add: max_def split: if_splits)
  with assms(1) have "ax + aw + 16 \<le> bx \<or> bx + bw + 16 \<le> ax" by blast
  then have "min (ax + aw) (bx + bw) - max ax bx \<le> 0" by (auto simp: min_def max_def)
  with assms(2) show False by simp
qed

lemma clear_low_overlap:
  assumes "finiteEntity a" "finiteEntity b" "clearOf a b"
  shows "lowOverlap (toBlock a) (toBlock b)"
proof -
  obtain ax ay aw ah where a: "entX a = Num ax" "entY a = Num ay" "entW a = Num aw" "entH a = Num ah"
    using assms(1) by (auto simp: finiteEntity_def isNum_iff)
  obtain bx by' bw bh where b: "entX b = Num bx" "entY b = Num by'" "entW b = Num bw" "entH b = Num bh"
    using assms(2) by (auto simp: finiteEntity_def isNum_iff)
  have sym: "min (by' + bh) (ay + ah) - max by' ay = min (ay + ah) (by' + bh) - max ay by'"
    by (simp add: min.commute max.commute)
  from assms(3) have sep:
    "1 < min (ay + ah) (by' + bh) - max ay by' \<longrightarrow> ax + aw + 16 \<le> bx \<or> bx + bw + 16 \<le> ax"
    by (auto simp: clearOf_def placedClear_def spanOverlapY_def a b sym)
  show ?thesis
    unfolding lowOverlap_def collides_def xOverlap_def yOverlap_def toBlock_def
    using span_low[OF sep] by (simp add: a b)
qed

lemma clearOf_sym: "clearOf a b \<Longrightarrow> clearOf b a"
  by (auto simp: clearOf_def)

lemma local_first:
  assumes "\<And>a b. P a b \<Longrightarrow> P b a"
  shows "sorted_wrt P xs \<Longrightarrow> find Q xs = Some l \<Longrightarrow> sorted_wrt P (l # filter (\<lambda>e. \<not> Q e) xs)"
proof (induction xs)
  case Nil
  then show ?case by simp
next
  case (Cons x xs)
  show ?case
  proof (cases "Q x")
    case True
    then have "l = x" using Cons.prems(2) by simp
    then show ?thesis using Cons.prems(1) True by (auto simp: sorted_wrt_filter)
  next
    case False
    then have f: "find Q xs = Some l" using Cons.prems(2) by simp
    then have lin: "l \<in> set xs" by (auto simp: find_Some_iff)
    have "sorted_wrt P (l # filter (\<lambda>e. \<not> Q e) xs)"
      using Cons.IH[OF _ f] Cons.prems(1) by simp
    moreover have "P l x" using Cons.prems(1) lin assms by auto
    ultimately show ?thesis using Cons.prems(1) False by auto
  qed
qed

lemma markers_low:
  assumes "sorted_wrt lowOverlap bs" "\<forall>m \<in> set ms. markerH m \<le> Num 1"
  shows "\<forall>m \<in> set (checkBlocks bs ms). markerH m \<le> Num 1"
  using assms
proof (induction bs arbitrary: ms)
  case Nil
  then show ?case by simp
next
  case (Cons a bs)
  have "\<forall>m \<in> set (checkAgainst a bs ms). markerH m \<le> Num 1"
    using Cons.prems by (auto simp: checkAgainst_eq lowOverlap_def markerOf_def split: if_splits)
  moreover have "sorted_wrt lowOverlap bs" using Cons.prems(1) by simp
  ultimately show ?case using Cons.IH by simp
qed

lemma invariant_under_sweeps:
  assumes y: "\<And>e v. g (e\<lparr> entY := v \<rparr>) = g e" and x: "\<And>e v. g (e\<lparr> entX := v \<rparr>) = g e"
  shows "g ` set (compactEntities es) = g ` set es"
proof -
  have sy: "map g (sweepY before rest) = map g (before @ rest)" for before rest
    by (induction before rest rule: sweepY.induct) (simp_all add: y)
  have sx: "map g (sweepX before rest) = map g (before @ rest)" for before rest
    by (induction before rest rule: sweepX.induct) (simp_all add: x)
  have "g ` set (compactEntities es) = set (map g (sweepX [] (sortBy compareXY (sweepY [] (sortBy compareYX es)))))"
    by (simp add: compactEntities_def)
  also have "\<dots> = g ` set (sweepY [] (sortBy compareYX es))"
    by (simp only: sx) (simp add: set_sortBy)
  also have "\<dots> = set (map g (sweepY [] (sortBy compareYX es)))" by simp
  also have "\<dots> = g ` set es"
    by (simp only: sy) (simp add: set_sortBy)
  finally show ?thesis .
qed

lemma compactEntities_sizedBy:
  "\<forall>e \<in> set (compactEntities (moduleEntities node config)). sizedBy node config e"
proof -
  let ?g = "\<lambda>e. (origin e, entId e, entW e, entH e)"
  have start: "\<forall>e \<in> set (moduleEntities node config). sizedBy node config e"
    by (cases node)
       (simp add: moduleEntities_def sizedBy_def Let_def stats_view localW_def localH_def)
  have img: "?g ` set (compactEntities (moduleEntities node config)) = ?g ` set (moduleEntities node config)"
    by (rule invariant_under_sweeps) simp_all
  show ?thesis
  proof
    fix e assume "e \<in> set (compactEntities (moduleEntities node config))"
    then have "?g e \<in> ?g ` set (moduleEntities node config)" using img by blast
    then obtain e0 where e0: "e0 \<in> set (moduleEntities node config)" "?g e = ?g e0" by blast
    then have "sizedBy node config e0" using start by blast
    then show "sizedBy node config e" using e0(2) by (simp add: sizedBy_def split: EntityOrigin.splits)
  qed
qed

subsection \<open>Compactor: the detector on the result\<close>

lemma calculatePhysicalSize_moved:
  "calculatePhysicalSize (ModuleNode (f\<lparr> nodeX := a, nodeY := b \<rparr>) cs) config
     = calculatePhysicalSize (ModuleNode f cs) config"
proof -
  have "sizeFromChildren (f\<lparr> nodeX := a, nodeY := b \<rparr>) config info = sizeFromChildren f config info" for info
    by (rule sizeFromChildren_eqI)
       (simp_all add: sizeW_view sizeH_view stats_view view_defs effectiveInternalAR_def)
  then show ?thesis by simp
qed

lemma finite_orElse: "isNum a \<Longrightarrow> orElse a (Num 0) = a"
  by (cases a) auto

lemma children_blocks:
  assumes "\<forall>e \<in> set es. finiteEntity e \<and> sizedBy node config e"
  shows "map (\<lambda>c. let sz = calculatePhysicalSize c config
                    in \<lparr> blkId = nodeId (attrs c), blkName = nodeName (attrs c),
                         blkX = orElse (nodeX (attrs c)) (Num 0),
                         blkY = orElse (nodeY (attrs c)) (Num 0),
                         blkW = sizeW sz, blkH = sizeH sz \<rparr>)
             (updatedChildrenOf es)
         = map toBlock (filter (\<lambda>e. \<not> isLocal e) es)"
  using assms
proof (induction es)
  case Nil
  then show ?case by simp
next
  case (Cons e es)
  show ?case
  proof (cases "origin e")
    case LocalLogic
    then show ?thesis using Cons by (simp add: isLocal_def)
  next
    case (Original c)
    have fin: "isNum (entX e)" "isNum (entY e)" using Cons.prems by (simp_all add: finiteEntity_def)
    have sz: "entId e = nodeId (attrs c)" "entW e = sizeW (calculatePhysicalSize c config)"
      "entH e = sizeH (calculatePhysicalSize c config)"
      using Cons.prems Original by (simp_all add: sizedBy_def)
    show ?thesis
      using Cons Original fin sz
      by (simp add: isLocal_def toBlock_def Let_def calculatePhysicalSize_moved finite_orElse
          del: calculatePhysicalSize.simps)
  qed
qed

lemma result_blocks:
  assumes "\<not> isRatioLinked (attrs node)"
    and "\<forall>e \<in> set es. finiteEntity e \<and> sizedBy node config e"
    and "find isLocal es = Some l"
  shows "moduleBlocks
           (ModuleNode
              ((attrs node)\<lparr> internalX := entX l, internalY := entY l, aspectRatio := ratio,
                 internalAspectRatio := internalAspectRatio (attrs node) \<rparr>)
              (updatedChildrenOf es)) config
         = map toBlock (l # filter (\<lambda>e. \<not> isLocal e) es)"
proof -
  let ?f = "(attrs node)\<lparr> internalX := entX l, internalY := entY l, aspectRatio := ratio,
                 internalAspectRatio := internalAspectRatio (attrs node) \<rparr>"
  have l: "l \<in> set es" "isLocal l" using assms(3) by (auto simp: find_Some_iff)
  then have fin: "isNum (entX l)" "isNum (entY l)" using assms(2) by (simp_all add: finiteEntity_def)
  have sz: "entId l = ''internal''" "entW l = localW (attrs node) config"
    "entH l = localH (attrs node) config"
    using assms(2) l by (auto simp: sizedBy_def isLocal_def)
  have eff: "effectiveInternalAR ?f = effectiveInternalAR (attrs node)"
    using assms(1) by (simp add: effectiveInternalAR_def)
  have la: "localAreaOf ?f config = localAreaOf (attrs node) config"
    by (simp add: localAreaOf_def)
  have loc: "\<lparr> blkId = ''internal'', blkName = ''[Local Logic]'',
           blkX = orElse (internalX ?f) (Num 0), blkY = orElse (internalY ?f) (Num 0),
           blkW = Math_sqrt (localAreaOf ?f config / effectiveInternalAR ?f) * effectiveInternalAR ?f,
           blkH = Math_sqrt (localAreaOf ?f config / effectiveInternalAR ?f) \<rparr> = toBlock l"
    using l(2) fin sz unfolding eff la
    by (simp add: toBlock_def isLocal_def finite_orElse localW_def localH_def)
  show ?thesis
    using loc children_blocks[OF assms(2)]
    by (simp add: moduleBlocks_def Let_def stats_view)
qed

lemma sqrt_reshaped: "sqrt (1000000 / 49) = 1000 / 7"
  by (rule real_sqrt_unique) (simp_all add: power2_eq_square)

lemma linked_entities:
  "moduleEntities (linkedParent 1 200) unitConfig =
    [\<lparr> origin = LocalLogic, entId = ''internal'', entX = Num 0, entY = Num 0, entW = Num 100, entH = Num 100 \<rparr>,
     \<lparr> origin = Original (emptyLeaf ''c'' 0 200 52 16), entId = ''c'', entX = Num 0, entY = Num 200, entW = Num 100, entH = Num 100 \<rparr>]"
  by (simp add: linkedParent_def moduleEntities_def eval_defs Let_def sqrt_10000)

lemma linked_compact:
  "compactEntities (moduleEntities (linkedParent 1 200) unitConfig) =
    [\<lparr> origin = LocalLogic, entId = ''internal'', entX = Num 0, entY = Num 0, entW = Num 100, entH = Num 100 \<rparr>,
     \<lparr> origin = Original (emptyLeaf ''c'' 0 200 52 16), entId = ''c'', entX = Num 0, entY = Num 116, entW = Num 100, entH = Num 100 \<rparr>]"
  unfolding linked_entities
  by (simp add: compactEntities_def sortBy_def compareYX_def compareXY_def bestX_def bestY_def
      spanOverlapX_def spanOverlapY_def)

text \<open>
  Why the next theorem is about nodes that are not ratio-linked: for a linked node the
  Compactor stores the new ratio as the internal ratio too, which reshapes the local-logic
  block. Here the block of 100 by 100 becomes 70 by 1000/7 and then reaches 188/7 units
  into the child that the sweep had put right below it.
\<close>

lemma linked_compaction_reshapes_local_logic:
  "checkOverlapsInModule (linkedParent 1 200) unitConfig = []
   \<and> organizeChildrenMosaic (linkedParent 1 200) unitConfig = Inr (linkedParent (49 / 100) 116)
   \<and> checkOverlapsInModule (linkedParent (49 / 100) 116) unitConfig
       = [\<lparr> markerX = Num 0, markerY = Num 116, markerW = Num 70, markerH = Num (188 / 7),
            ids = (''internal'', ''c'') \<rparr>]"
proof -
  have before: "checkOverlapsInModule (linkedParent 1 200) unitConfig = []"
    by (simp add: checkOverlapsInModule_def linkedParent_def moduleBlocks_def eval_defs Let_def
        xOverlap_def yOverlap_def markerOf_def sqrt_10000)
  have once: "organizeChildrenMosaic (linkedParent 1 200) unitConfig = Inr (linkedParent (49 / 100) 116)"
    unfolding organizeChildrenMosaic_def linked_compact
    by (simp add: linkedParent_def isLocal_def eval_defs Let_def)
  have after: "checkOverlapsInModule (linkedParent (49 / 100) 116) unitConfig
       = [\<lparr> markerX = Num 0, markerY = Num 116, markerW = Num 70, markerH = Num (188 / 7),
            ids = (''internal'', ''c'') \<rparr>]"
    by (simp add: checkOverlapsInModule_def linkedParent_def moduleBlocks_def eval_defs Let_def
        xOverlap_def yOverlap_def markerOf_def sqrt_reshaped)
  show ?thesis using before once after by simp
qed

text \<open>
  C1, amended. For a node that is not ratio-linked and whose entities (the local-logic
  block and the direct children, as sized by the calculator) have finite positions and
  sizes, the Compactor returns a node, and every marker that the Overlap Detector reports
  on that node is at most one unit high: the sweeps disregard overlaps of at most one unit,
  so such an overlap can remain (as in the counterexample), and no higher one does.
\<close>

theorem compaction_leaves_low_overlaps:
  assumes "\<not> isRatioLinked (attrs node)"
    and "\<forall>e \<in> set (moduleEntities node config). finiteEntity e"
  shows "\<exists>n'. organizeChildrenMosaic node config = Inr n'
     \<and> (\<forall>m \<in> set (checkOverlapsInModule n' config). markerH m \<le> Num 1)"
proof (cases "children node = []")
  case True
  then show ?thesis
    by (simp add: organizeChildrenMosaic_def checkOverlapsInModule_def moduleBlocks_def Let_def)
next
  case False
  let ?es = "compactEntities (moduleEntities node config)"
  obtain l where l: "find isLocal ?es = Some l"
    using compactEntities_has_local by blast
  have lin: "l \<in> set ?es" using l by (auto simp: find_Some_iff)
  note sep = compactEntities_separated[OF assms(2)]
  have inv: "\<forall>e \<in> set ?es. finiteEntity e \<and> sizedBy node config e"
    using sep(2) compactEntities_sizedBy by blast
  have "sorted_wrt clearOf ?es"
    using sep(1) by (rule sorted_wrt_mono_rel[rotated]) (simp add: clearOf_def)
  then have clr: "sorted_wrt clearOf (l # filter (\<lambda>e. \<not> isLocal e) ?es)"
    using l by (intro local_first) (auto intro: clearOf_sym)
  have fin: "\<forall>e \<in> set (l # filter (\<lambda>e. \<not> isLocal e) ?es). finiteEntity e"
    using sep(2) lin by simp
  have "sorted_wrt (\<lambda>a b. lowOverlap (toBlock a) (toBlock b)) (l # filter (\<lambda>e. \<not> isLocal e) ?es)"
  proof (rule sorted_wrt_mono_rel[OF _ clr])
    fix a b
    assume "a \<in> set (l # filter (\<lambda>e. \<not> isLocal e) ?es)"
      "b \<in> set (l # filter (\<lambda>e. \<not> isLocal e) ?es)" "clearOf a b"
    then show "lowOverlap (toBlock a) (toBlock b)"
      using fin clear_low_overlap by blast
  qed
  then have low: "sorted_wrt lowOverlap (map toBlock (l # filter (\<lambda>e. \<not> isLocal e) ?es))"
    by (simp only: sorted_wrt_map)
  define ratio where "ratio = toFixed2
     ((fold (\<lambda>c m. Math_max m (nodeX (attrs c) + sizeW (calculatePhysicalSize c config)))
         (updatedChildrenOf ?es) (entX l + entW l) + GLOBAL_MARGIN * Num 2)
      / (fold (\<lambda>c m. Math_max m (nodeY (attrs c) + sizeH (calculatePhysicalSize c config)))
         (updatedChildrenOf ?es) (entY l + entH l) + GLOBAL_MARGIN * Num 2 + GLOBAL_HEADER))"
  let ?n = "ModuleNode
              ((attrs node)\<lparr> internalX := entX l, internalY := entY l, aspectRatio := ratio,
                 internalAspectRatio := internalAspectRatio (attrs node) \<rparr>)
              (updatedChildrenOf ?es)"
  have res: "organizeChildrenMosaic node config = Inr ?n"
    using False l assms(1) by (simp add: organizeChildrenMosaic_def Let_def ratio_def)
  have "\<forall>m \<in> set (checkOverlapsInModule ?n config). markerH m \<le> Num 1"
    unfolding checkOverlapsInModule_def result_blocks[OF assms(1) inv l]
    using low by (intro markers_low) simp_all
  then show ?thesis using res by blast
qed

theorem compaction_leaves_low_overlaps_witness:
  "\<exists>n'. organizeChildrenMosaic slidingChildren unitConfig = Inr n'
     \<and> (\<forall>m \<in> set (checkOverlapsInModule n' unitConfig). markerH m \<le> Num 1)"
proof -
  have unlinked: "\<not> isRatioLinked (attrs slidingChildren)"
    by (simp add: slidingChildren_def container_def)
  have finite: "\<forall>e \<in> set (moduleEntities slidingChildren unitConfig). finiteEntity e"
    unfolding sliding_entities by (simp add: finiteEntity_def)
  show ?thesis by (rule compaction_leaves_low_overlaps [OF unlinked finite])
qed

end
